theory Spec2Isabelle
  imports Main
begin

section \<open>The NLPExplainer sentiment-analysis notebook (omnixai/nlp.ipynb)\<close>

text \<open>
  The notebook is a straight-line script over an external library.  Two functions are
  written in the notebook itself, the adapters \<open>preprocess\<close> and \<open>postprocess\<close>; every
  other name (\<open>Text\<close>, \<open>transformers.pipeline\<close>, \<open>NLPExplainer\<close>, \<open>Dashboard\<close>,
  \<open>np.array\<close>) is imported.  The theory first embeds the two adapters, as HOL
  functions and again over a store of objects, then the statements of the code cells
  as state transformers over an arbitrary external library, and then proves the
  properties of both.
\<close>

subsection \<open>Python values used by the adapters\<close>

text \<open>
  A Python \<open>str\<close> is a sequence of Unicode code points; the input sentences of the
  notebook contain emoji, which do not fit the 8-bit \<open>char\<close> of HOL.  \<open>ascii\<close> embeds
  the ASCII literals of the source.
\<close>

type_synonym str = "nat list"

definition ascii :: "string \<Rightarrow> str" where
  "ascii s = map of_char s"

text \<open>
  Exceptions.  \<open>KeyError\<close>, \<open>NameError\<close>, \<open>TypeError\<close> and \<open>AttributeError\<close> are raised
  by the interpreter itself (a missing dictionary key, an unbound name, subscripting
  or calling a method on a value that has none), \<open>ValueError\<close> by \<open>np.array\<close>;
  \<open>Raised\<close> is any exception coming out of the external library.
\<close>

datatype error =
    KeyError str
  | NameError string
  | TypeError
  | AttributeError string
  | ValueError
  | Raised string

text \<open>A \<open>dict\<close> with string keys; \<open>d[k]\<close> raises \<open>KeyError\<close> on a missing key.\<close>

type_synonym 'v dict = "str \<rightharpoonup> 'v"

definition getitem :: "'v dict \<Rightarrow> str \<Rightarrow> error + 'v" where
  "getitem d k = (case d k of None \<Rightarrow> Inl (KeyError k) | Some v \<Rightarrow> Inr v)"

text \<open>
  A list comprehension \<open>[f(a) for a in as]\<close>: the elements are computed from left to
  right and the first exception ends the comprehension.
\<close>

fun comprehension :: "('a \<Rightarrow> error + 'b) \<Rightarrow> 'a list \<Rightarrow> error + 'b list" where
  "comprehension f [] = Inr []"
| "comprehension f (a # as) =
     (case f a of
        Inl e \<Rightarrow> Inl e
      | Inr b \<Rightarrow> (case comprehension f as of Inl e \<Rightarrow> Inl e | Inr bs \<Rightarrow> Inr (b # bs)))"

text \<open>
  Modelled from the spec: the class \<open>Text\<close> of \<open>omnixai.data.text\<close> is imported by the
  notebook and is not part of the source; the spec describes its instances as
  ``a text-batch value wrapping a sequence of input strings'', constructed ``from a
  sequence of strings''.  The record is extensible: whatever other attributes an
  instance carries are its \<open>more\<close> part.
\<close>

record text_batch =
  "values" :: "str list"

definition Text :: "str list \<Rightarrow> text_batch" where
  "Text data = \<lparr>values = data\<rparr>"

text \<open>
  Modelled from the spec: \<open>np.array\<close> of numpy is imported and not part of the
  source; the spec only says that the model callable returns ``per-class scores''.
  A two-dimensional array is represented by the list of its rows.  On rows of unequal
  length current numpy raises \<open>ValueError\<close>; no statement below depends on that case
  beyond its being a function of the rows.
\<close>

datatype 'a ndarray = Array (rows: "'a list list")

definition np_array :: "'a list list \<Rightarrow> error + 'a ndarray" where
  "np_array rs =
     (case rs of
        [] \<Rightarrow> Inr (Array [])
      | r # rs' \<Rightarrow>
          if \<forall>q \<in> set rs'. length q = length r then Inr (Array rs) else Inl ValueError)"

subsection \<open>The two adapters of the notebook\<close>

text \<open>\<^verbatim>\<open>preprocess = lambda x: x.values\<close>\<close>

definition preprocess :: "'z text_batch_scheme \<Rightarrow> str list" where
  "preprocess x = values x"

text \<open>
  \<^verbatim>\<open>postprocess = lambda outputs: np.array([[s["score"] for s in ss] for ss in outputs])\<close>

  The nested comprehension is evaluated first, then \<open>np.array\<close> is called on it.
\<close>

definition postprocess :: "'v dict list list \<Rightarrow> error + 'v ndarray" where
  "postprocess outputs =
     (case comprehension (\<lambda>ss. comprehension (\<lambda>s. getitem s (ascii ''score'')) ss) outputs of
        Inl e \<Rightarrow> Inl e
      | Inr scores \<Rightarrow> np_array scores)"


subsection \<open>The two adapters over a store of objects\<close>

text \<open>
  Whether a function changes its argument cannot be said of the functions above, which
  have no state.  The adapters are therefore embedded a second time, over a store of
  Python objects: an argument is a reference to an object, reading follows
  references, and a list comprehension and \<open>np.array\<close> create new objects.

  The store is the list of the objects created so far; a reference is a position in
  it, and a new object is put at the end.  \<open>Atom\<close> is an immutable value (a number, a
  string); a list, a \<open>dict\<close> and an instance hold references; an array holds copies of
  numbers.
\<close>

type_synonym addr = nat

datatype 'v pyobj =
    Atom 'v
  | PyList "addr list"
  | PyDict "(str \<times> addr) list"
  | Instance "(string \<times> addr) list"
  | NDArray "'v list list"

type_synonym 'v heap = "'v pyobj list"

text \<open>
  A reference beyond the store does not occur in Python; \<open>deref\<close> gives \<open>None\<close> there,
  and the operations below then raise like on an object of the wrong kind.
\<close>

definition deref :: "'v heap \<Rightarrow> addr \<Rightarrow> 'v pyobj option" where
  "deref h a = (if a < length h then Some (h ! a) else None)"

definition alloc :: "'v pyobj \<Rightarrow> 'v heap \<Rightarrow> addr \<times> 'v heap" where
  "alloc ob h = (length h, h @ [ob])"

text \<open>
  \<open>x.name\<close>: the attribute of an instance (the text batch is one, with the attribute
  \<open>values\<close>).  Methods that built-in types carry, such as the method \<open>values\<close> of a
  \<open>dict\<close>, are not modelled: on every object but an instance the lookup raises
  \<open>AttributeError\<close>.
\<close>

definition attribute :: "addr \<Rightarrow> string \<Rightarrow> 'v heap \<Rightarrow> (error + addr) \<times> 'v heap" where
  "attribute x name h =
     (case deref h x of
        Some (Instance attrs) \<Rightarrow>
          (case map_of attrs name of
             None \<Rightarrow> (Inl (AttributeError name), h)
           | Some r \<Rightarrow> (Inr r, h))
      | _ \<Rightarrow> (Inl (AttributeError name), h))"

text \<open>
  \<open>s[key]\<close> with a string key, as \<open>getitem\<close> above: \<open>KeyError\<close> on a \<open>dict\<close> without
  the key, \<open>TypeError\<close> on an object that is not a \<open>dict\<close>.
\<close>

definition item :: "str \<Rightarrow> addr \<Rightarrow> 'v heap \<Rightarrow> (error + addr) \<times> 'v heap" where
  "item key s h =
     (case deref h s of
        Some (PyDict kvs) \<Rightarrow>
          (case map_of kvs key of
             None \<Rightarrow> (Inl (KeyError key), h)
           | Some r \<Rightarrow> (Inr r, h))
      | _ \<Rightarrow> (Inl TypeError, h))"

text \<open>
  \<open>[f(a) for a in xs]\<close> over a list object: the elements are computed from left to
  right, each in the store the one before has left, and the result is a new list
  object.  The first exception ends the comprehension.  Iterating an object that is
  not a list is not modelled and raises \<open>TypeError\<close>.
\<close>

fun collect ::
  "(addr \<Rightarrow> 'v heap \<Rightarrow> (error + addr) \<times> 'v heap) \<Rightarrow> addr list \<Rightarrow> 'v heap \<Rightarrow>
     (error + addr list) \<times> 'v heap" where
  "collect f [] h = (Inr [], h)"
| "collect f (a # as) h =
     (case f a h of
        (Inl e, h1) \<Rightarrow> (Inl e, h1)
      | (Inr b, h1) \<Rightarrow>
          (case collect f as h1 of
             (Inl e, h2) \<Rightarrow> (Inl e, h2)
           | (Inr bs, h2) \<Rightarrow> (Inr (b # bs), h2)))"

definition list_comprehension ::
  "(addr \<Rightarrow> 'v heap \<Rightarrow> (error + addr) \<times> 'v heap) \<Rightarrow> addr \<Rightarrow> 'v heap \<Rightarrow>
     (error + addr) \<times> 'v heap" where
  "list_comprehension f xs h =
     (case deref h xs of
        Some (PyList as) \<Rightarrow>
          (case collect f as h of
             (Inl e, h1) \<Rightarrow> (Inl e, h1)
           | (Inr bs, h1) \<Rightarrow> (case alloc (PyList bs) h1 of (a, h2) \<Rightarrow> (Inr a, h2)))
      | _ \<Rightarrow> (Inl TypeError, h))"

text \<open>
  \<open>np.array\<close> on a list of lists of numbers: a new array object holding copies of the
  numbers, with \<open>ValueError\<close> on rows of unequal length as in \<open>np_array\<close> above.
  Nested lists with other elements are not modelled and raise \<open>TypeError\<close>.
\<close>

definition numbers :: "'v heap \<Rightarrow> addr list \<Rightarrow> 'v list option" where
  "numbers h as =
     those (map (\<lambda>a. case deref h a of Some (Atom v) \<Rightarrow> Some v | _ \<Rightarrow> None) as)"

definition nested :: "'v heap \<Rightarrow> addr \<Rightarrow> 'v list list option" where
  "nested h t =
     (case deref h t of
        Some (PyList rs) \<Rightarrow>
          those (map (\<lambda>r. case deref h r of Some (PyList as) \<Rightarrow> numbers h as | _ \<Rightarrow> None) rs)
      | _ \<Rightarrow> None)"

definition np_array_store :: "addr \<Rightarrow> 'v heap \<Rightarrow> (error + addr) \<times> 'v heap" where
  "np_array_store t h =
     (case nested h t of
        None \<Rightarrow> (Inl TypeError, h)
      | Some rs \<Rightarrow>
          (case np_array rs of
             Inl e \<Rightarrow> (Inl e, h)
           | Inr m \<Rightarrow> (case alloc (NDArray (rows m)) h of (a, h1) \<Rightarrow> (Inr a, h1))))"

text \<open>
\<^verbatim>\<open>preprocess = lambda x: x.values\<close>
\<close>

definition preprocess_store :: "addr \<Rightarrow> 'v heap \<Rightarrow> (error + addr) \<times> 'v heap" where
  "preprocess_store x h = attribute x ''values'' h"

text \<open>
\<^verbatim>\<open>postprocess = lambda outputs: np.array([[s["score"] for s in ss] for ss in outputs])\<close>
\<close>

definition postprocess_store :: "addr \<Rightarrow> 'v heap \<Rightarrow> (error + addr) \<times> 'v heap" where
  "postprocess_store outputs h =
     (case list_comprehension (\<lambda>ss. list_comprehension (\<lambda>s. item (ascii ''score'') s) ss)
             outputs h of
        (Inl e, h1) \<Rightarrow> (Inl e, h1)
      | (Inr t, h1) \<Rightarrow> np_array_store t h1)"

text \<open>
  The value of an object, followed through the store down to a given depth: two
  objects in two stores are equal inputs when their values are equal, wherever the
  objects lie.  Below the depth an object is \<open>VRef\<close>.
\<close>

datatype 'v pyval =
    VAtom 'v
  | VList "'v pyval list"
  | VDict "(str \<times> 'v pyval) list"
  | VInstance "(string \<times> 'v pyval) list"
  | VArray "'v list list"
  | VRef

fun value_of :: "nat \<Rightarrow> 'v heap \<Rightarrow> addr \<Rightarrow> 'v pyval" where
  "value_of 0 h a = VRef"
| "value_of (Suc n) h a =
     (case deref h a of
        None \<Rightarrow> VRef
      | Some (Atom v) \<Rightarrow> VAtom v
      | Some (PyList as) \<Rightarrow> VList (map (value_of n h) as)
      | Some (PyDict kvs) \<Rightarrow> VDict (map (\<lambda>kv. (fst kv, value_of n h (snd kv))) kvs)
      | Some (Instance attrs) \<Rightarrow> VInstance (map (\<lambda>kv. (fst kv, value_of n h (snd kv))) attrs)
      | Some (NDArray m) \<Rightarrow> VArray m)"

text \<open>
  The result of a call as a value: the exception, or the value of the object
  returned, read in the store the call has left.
\<close>

definition result_value :: "nat \<Rightarrow> (error + addr) \<times> 'v heap \<Rightarrow> error + 'v pyval" where
  "result_value n res = (case res of (Inl e, h) \<Rightarrow> Inl e | (Inr a, h) \<Rightarrow> Inr (value_of n h a))"

text \<open>
  A store is closed when every reference held by one of its objects is a position
  of the store.
\<close>

fun refs :: "'v pyobj \<Rightarrow> addr list" where
  "refs (Atom v) = []"
| "refs (PyList as) = as"
| "refs (PyDict kvs) = map snd kvs"
| "refs (Instance attrs) = map snd attrs"
| "refs (NDArray m) = []"

definition closed :: "'v heap \<Rightarrow> bool" where
  "closed h = list_all (\<lambda>ob. list_all (\<lambda>a. a < length h) (refs ob)) h"

text \<open>
  What an adapter is meant to read of its argument: of a text batch the attribute
  \<open>values\<close>, of the model output the \<open>"score"\<close> entry of every record.  The functions
  erase the rest from a value.
\<close>

fun only_values :: "'v pyval \<Rightarrow> 'v pyval" where
  "only_values (VInstance attrs) = VInstance (filter (\<lambda>kv. fst kv = ''values'') attrs)"
| "only_values v = v"

fun only_score :: "'v pyval \<Rightarrow> 'v pyval" where
  "only_score (VDict kvs) = VDict (filter (\<lambda>kv. fst kv = ascii ''score'') kvs)"
| "only_score v = v"

fun only_scores_row :: "'v pyval \<Rightarrow> 'v pyval" where
  "only_scores_row (VList recs) = VList (map only_score recs)"
| "only_scores_row v = v"

fun only_scores :: "'v pyval \<Rightarrow> 'v pyval" where
  "only_scores (VList rs) = VList (map only_scores_row rs)"
| "only_scores v = v"

subsection \<open>Values, library calls and the state of the script\<close>

text \<open>
  The values the script handles.  \<open>Fun\<close> is one of the two closures created by the
  \<open>lambda\<close> expressions of the notebook (what they compute when the library applies
  them is \<open>preprocess\<close> and \<open>postprocess\<close> above; the script itself only passes
  them on); \<open>Obj\<close> is an object of the external library
  (a text batch, a pipeline, an explainer, an explanation, a dashboard), opaque to the
  script and identified by a handle of type \<open>'o\<close>; a mapping is a \<open>Dict\<close>, in insertion
  order.
\<close>

datatype lambda = Lambda_preprocess | Lambda_postprocess

datatype 'o val =
    NoneV
  | Bool bool
  | Str str
  | List "'o val list"
  | Dict "(str \<times> 'o val) list"
  | Fun lambda
  | Obj 'o

text \<open>
  A call into the external library: an imported name or a method of a library object,
  with positional and keyword arguments.
\<close>

datatype 'o callee = Global string | Method 'o string

datatype 'o call =
  Call (callee: "'o callee") (args: "'o val list") (kwargs: "(string \<times> 'o val) list")

text \<open>
  The library is a parameter: every call returns a value or raises, and may change the
  state \<open>'w\<close> of the world outside the script (the state of the library's objects, a
  running server).
\<close>

type_synonym ('o, 'w) library = "'o call \<Rightarrow> 'w \<Rightarrow> (error + 'o val) \<times> 'w"

text \<open>
  The state of a run: the variables bound so far, the lines printed, the library calls
  made so far, each with its result, and the world.
\<close>

record ('o, 'w) state =
  vars :: "string \<rightharpoonup> 'o val"
  stdout :: "str list"
  trace :: "('o call \<times> (error + 'o val)) list"
  world :: 'w

type_synonym ('o, 'w) expr = "('o, 'w) state \<Rightarrow> (error + 'o val) \<times> ('o, 'w) state"

type_synonym ('o, 'w) stmt = "('o, 'w) state \<Rightarrow> error option \<times> ('o, 'w) state"

subsection \<open>Expressions\<close>

definition lit :: "'o val \<Rightarrow> ('o, 'w) expr" where
  "lit v s = (Inr v, s)"

text \<open>Reading a name that is not bound raises \<open>NameError\<close>.\<close>

definition var :: "string \<Rightarrow> ('o, 'w) expr" where
  "var n s = (case vars s n of None \<Rightarrow> (Inl (NameError n), s) | Some v \<Rightarrow> (Inr v, s))"

text \<open>Arguments are evaluated from left to right, positional ones first.\<close>

fun eval_args ::
  "('o, 'w) expr list \<Rightarrow> ('o, 'w) state \<Rightarrow> (error + 'o val list) \<times> ('o, 'w) state" where
  "eval_args [] s = (Inr [], s)"
| "eval_args (a # as) s =
     (case a s of
        (Inl e, s1) \<Rightarrow> (Inl e, s1)
      | (Inr v, s1) \<Rightarrow>
          (case eval_args as s1 of
             (Inl e, s2) \<Rightarrow> (Inl e, s2)
           | (Inr vs, s2) \<Rightarrow> (Inr (v # vs), s2)))"

fun eval_kwargs ::
  "(string \<times> ('o, 'w) expr) list \<Rightarrow> ('o, 'w) state \<Rightarrow>
     (error + (string \<times> 'o val) list) \<times> ('o, 'w) state" where
  "eval_kwargs [] s = (Inr [], s)"
| "eval_kwargs ((k, a) # kas) s =
     (case a s of
        (Inl e, s1) \<Rightarrow> (Inl e, s1)
      | (Inr v, s1) \<Rightarrow>
          (case eval_kwargs kas s1 of
             (Inl e, s2) \<Rightarrow> (Inl e, s2)
           | (Inr kvs, s2) \<Rightarrow> (Inr ((k, v) # kvs), s2)))"

text \<open>
  A call evaluates its arguments, hands the call to the library, and records the call
  and its result.
\<close>

definition invoke ::
  "('o, 'w) library \<Rightarrow> 'o callee \<Rightarrow> ('o, 'w) expr list \<Rightarrow>
     (string \<times> ('o, 'w) expr) list \<Rightarrow> ('o, 'w) expr" where
  "invoke lib f as kas s =
     (case eval_args as s of
        (Inl e, s1) \<Rightarrow> (Inl e, s1)
      | (Inr vs, s1) \<Rightarrow>
          (case eval_kwargs kas s1 of
             (Inl e, s2) \<Rightarrow> (Inl e, s2)
           | (Inr kvs, s2) \<Rightarrow>
               (case lib (Call f vs kvs) (world s2) of
                  (r, w') \<Rightarrow>
                    (r, s2\<lparr>trace := trace s2 @ [(Call f vs kvs, r)], world := w'\<rparr>))))"

definition call_global ::
  "('o, 'w) library \<Rightarrow> string \<Rightarrow> ('o, 'w) expr list \<Rightarrow>
     (string \<times> ('o, 'w) expr) list \<Rightarrow> ('o, 'w) expr" where
  "call_global lib name as kas = invoke lib (Global name) as kas"

text \<open>
  \<open>obj.name(...)\<close>: only a library object has methods of the library; on any other
  value of this model the attribute lookup raises \<open>AttributeError\<close>, before the
  arguments are evaluated.
\<close>

definition call_method ::
  "('o, 'w) library \<Rightarrow> ('o, 'w) expr \<Rightarrow> string \<Rightarrow> ('o, 'w) expr list \<Rightarrow>
     (string \<times> ('o, 'w) expr) list \<Rightarrow> ('o, 'w) expr" where
  "call_method lib obj name as kas s =
     (case obj s of
        (Inl e, s1) \<Rightarrow> (Inl e, s1)
      | (Inr v, s1) \<Rightarrow>
          (case v of
             Obj ob \<Rightarrow> invoke lib (Method ob name) as kas s1
           | _ \<Rightarrow> (Inl (AttributeError name), s1)))"

text \<open>
  \<open>obj["key"]\<close> with a string key: a \<open>Dict\<close> is looked up (\<open>KeyError\<close> on a missing
  key); no other value of this model can be subscripted by a string (\<open>TypeError\<close>).
\<close>

definition subscript :: "('o, 'w) expr \<Rightarrow> str \<Rightarrow> ('o, 'w) expr" where
  "subscript obj key s =
     (case obj s of
        (Inl e, s1) \<Rightarrow> (Inl e, s1)
      | (Inr v, s1) \<Rightarrow>
          (case v of
             Dict kvs \<Rightarrow>
               (case map_of kvs key of
                  None \<Rightarrow> (Inl (KeyError key), s1)
                | Some u \<Rightarrow> (Inr u, s1))
           | _ \<Rightarrow> (Inl TypeError, s1)))"

subsection \<open>Statements\<close>

text \<open>
  A statement ends normally (\<open>None\<close>) or with an exception (\<open>Some e\<close>).  An assignment
  binds the name only when its right-hand side has returned.
\<close>

definition assign :: "string \<Rightarrow> ('o, 'w) expr \<Rightarrow> ('o, 'w) stmt" where
  "assign name e s =
     (case e s of
        (Inl err, s1) \<Rightarrow> (Some err, s1)
      | (Inr v, s1) \<Rightarrow> (None, s1\<lparr>vars := (vars s1)(name \<mapsto> v)\<rparr>))"

definition expr_stmt :: "('o, 'w) expr \<Rightarrow> ('o, 'w) stmt" where
  "expr_stmt e s =
     (case e s of
        (Inl err, s1) \<Rightarrow> (Some err, s1)
      | (Inr v, s1) \<Rightarrow> (None, s1))"

definition print :: "str \<Rightarrow> ('o, 'w) stmt" where
  "print line s = (None, s\<lparr>stdout := stdout s @ [line]\<rparr>)"

text \<open>
  Statements run in order; the notebook has no \<open>try\<close>, so the first exception ends
  the run.
\<close>

fun exec :: "('o, 'w) stmt list \<Rightarrow> ('o, 'w) stmt" where
  "exec [] s = (None, s)"
| "exec (c # cs) s =
     (case c s of
        (None, s1) \<Rightarrow> exec cs s1
      | (Some e, s1) \<Rightarrow> (Some e, s1))"

subsection \<open>The code cells of the notebook\<close>

text \<open>
  The two input sentences; the emoji are given by their code points.
\<close>

definition sentence1 :: str where
  "sentence1 = ascii ''Well, '' @ [0x1F634, 0x1F44E, 0x1F3FB, 0x1F614, 0x1F44E, 0x1F3FB]"

definition sentence2 :: str where
  "sentence2 = ascii ''Go if you like to '' @ [0x1F922]"

text \<open>\<^verbatim>\<open>x = Text([sentence1, sentence2])\<close>\<close>

definition cell_input :: "('o, 'w) library \<Rightarrow> ('o, 'w) stmt list" where
  "cell_input lib =
     [assign ''x'' (call_global lib ''Text'' [lit (List [Str sentence1, Str sentence2])] [])]"

text \<open>
  \<^verbatim>\<open>preprocess = lambda x: x.values\<close>

  \<^verbatim>\<open>model = transformers.pipeline('sentiment-analysis',\<close>
  \<^verbatim>\<open>    model='distilbert-base-uncased-finetuned-sst-2-english', return_all_scores=True)\<close>

  \<^verbatim>\<open>postprocess = lambda outputs: np.array(...)\<close>

  \<^verbatim>\<open>explainer = NLPExplainer(explainers=["shap", "lime"], mode="classification",\<close>
  \<^verbatim>\<open>    model=model, preprocess=preprocess, postprocess=postprocess)\<close>
\<close>

definition cell_setup :: "('o, 'w) library \<Rightarrow> ('o, 'w) stmt list" where
  "cell_setup lib =
     [assign ''preprocess'' (lit (Fun Lambda_preprocess)),
      assign ''model''
        (call_global lib ''transformers.pipeline''
           [lit (Str (ascii ''sentiment-analysis''))]
           [(''model'', lit (Str (ascii ''distilbert-base-uncased-finetuned-sst-2-english''))),
            (''return_all_scores'', lit (Bool True))]),
      assign ''postprocess'' (lit (Fun Lambda_postprocess)),
      assign ''explainer''
        (call_global lib ''NLPExplainer'' []
           [(''explainers'', lit (List [Str (ascii ''shap''), Str (ascii ''lime'')])),
            (''mode'', lit (Str (ascii ''classification''))),
            (''model'', var ''model''),
            (''preprocess'', var ''preprocess''),
            (''postprocess'', var ''postprocess'')])]"

text \<open>
  \<^verbatim>\<open>local_explanations = explainer.explain(x)\<close>

  \<^verbatim>\<open>print("SHAP results:")\<close>

  \<^verbatim>\<open>local_explanations["shap"].ipython_plot()\<close>

  \<^verbatim>\<open>print("LIME results:")\<close>

  \<^verbatim>\<open>local_explanations["lime"].ipython_plot()\<close>
\<close>

definition cell_explain :: "('o, 'w) library \<Rightarrow> ('o, 'w) stmt list" where
  "cell_explain lib =
     [assign ''local_explanations''
        (call_method lib (var ''explainer'') ''explain'' [var ''x''] []),
      print (ascii ''SHAP results:''),
      expr_stmt
        (call_method lib (subscript (var ''local_explanations'') (ascii ''shap''))
           ''ipython_plot'' [] []),
      print (ascii ''LIME results:''),
      expr_stmt
        (call_method lib (subscript (var ''local_explanations'') (ascii ''lime''))
           ''ipython_plot'' [] [])]"

text \<open>
  \<^verbatim>\<open>dashboard = Dashboard(instances=x, local_explanations=local_explanations)\<close>

  \<^verbatim>\<open>dashboard.show()\<close>
\<close>

definition cell_dashboard :: "('o, 'w) library \<Rightarrow> ('o, 'w) stmt list" where
  "cell_dashboard lib =
     [assign ''dashboard''
        (call_global lib ''Dashboard'' []
           [(''instances'', var ''x''),
            (''local_explanations'', var ''local_explanations'')]),
      expr_stmt (call_method lib (var ''dashboard'') ''show'' [] [])]"

text \<open>The script is the four cells in the order of the notebook, run from an empty state.\<close>

definition script :: "('o, 'w) library \<Rightarrow> ('o, 'w) stmt list" where
  "script lib = cell_input lib @ cell_setup lib @ cell_explain lib @ cell_dashboard lib"

definition initial :: "'w \<Rightarrow> ('o, 'w) state" where
  "initial w = \<lparr>vars = Map.empty, stdout = [], trace = [], world = w\<rparr>"

definition run :: "('o, 'w) library \<Rightarrow> 'w \<Rightarrow> error option \<times> ('o, 'w) state" where
  "run lib w = exec (script lib) (initial w)"

text \<open>The names of the library calls a run has made, in order.\<close>

fun callee_name :: "'o callee \<Rightarrow> string" where
  "callee_name (Global name) = name"
| "callee_name (Method ob name) = name"

definition calls_made :: "('o, 'w) state \<Rightarrow> string list" where
  "calls_made s = map (\<lambda>ev. callee_name (callee (fst ev))) (trace s)"

text \<open>
  The flow as the specification words it, five steps, each a call into the library:
  construct the input, construct the model callable, construct the explainer facade,
  call \<open>explain\<close>, pass input and explanations to a dashboard.
\<close>

definition flow_steps :: "string list" where
  "flow_steps = [''Text'', ''transformers.pipeline'', ''NLPExplainer'', ''explain'', ''Dashboard'']"

subsection \<open>A library to run the script on\<close>

text \<open>
  A stand-in library for concrete runs: objects are numbered, the world counts the
  calls, \<open>explain\<close> returns a mapping with one explanation object per method name, and
  every call whose name is listed in \<open>failing\<close> raises.
\<close>

definition demo_lib :: "string list \<Rightarrow> (nat, nat) library" where
  "demo_lib failing c w =
     (case callee c of
        Global name \<Rightarrow>
          if name \<in> set failing then Inl (Raised name)
          else if name = ''Text'' then Inr (Obj 0)
          else if name = ''transformers.pipeline'' then Inr (Obj 1)
          else if name = ''NLPExplainer'' then Inr (Obj 2)
          else if name = ''Dashboard'' then Inr (Obj 5)
          else Inl (NameError name)
      | Method ob name \<Rightarrow>
          if name \<in> set failing then Inl (Raised name)
          else if name = ''explain''
            then Inr (Dict [(ascii ''shap'', Obj 3), (ascii ''lime'', Obj 4)])
          else if name = ''ipython_plot'' then Inr NoneV
          else if name = ''show'' then Inr NoneV
          else Inl (AttributeError name),
      Suc w)"

text \<open>
  A stand-in model callable: for every input string two records, each with a
  \<open>"label"\<close> and a \<open>"score"\<close> (natural numbers stand for the scores, which the
  adapters only copy).
\<close>

definition demo_scores :: "nat \<Rightarrow> nat \<Rightarrow> nat dict list" where
  "demo_scores a b =
     [[ascii ''label'' \<mapsto> 0, ascii ''score'' \<mapsto> a],
      [ascii ''label'' \<mapsto> 1, ascii ''score'' \<mapsto> b]]"

definition demo_model :: "str list \<Rightarrow> nat dict list list" where
  "demo_model texts = map (\<lambda>t. demo_scores (length t) 7) texts"

text \<open>
  Two stores holding the same model output and the same text batch at different
  places; the first also holds labels and a second attribute, which the adapters do
  not read.
\<close>

definition heap_a :: "nat heap" where
  "heap_a =
     [Atom 12, Atom 7, Atom 0,
      PyDict [(ascii ''label'', 2), (ascii ''score'', 0)],
      PyDict [(ascii ''label'', 2), (ascii ''score'', 1)],
      PyList [3, 4],
      PyList [5],
      PyList [2],
      Instance [(''values'', 7), (''tokenizer'', 2)]]"

definition heap_b :: "nat heap" where
  "heap_b =
     [PyList [1],
      PyList [2, 3],
      PyDict [(ascii ''score'', 4)],
      PyDict [(ascii ''score'', 5)],
      Atom 12, Atom 7,
      Instance [(''values'', 7)],
      PyList [8],
      Atom 0,
      Atom 99]"

subsection \<open>The explainer facade, as the specification describes it\<close>

text \<open>
  Modelled from the spec: the class \<open>NLPExplainer\<close> and its method \<open>explain\<close> are
  imported by the notebook and are not part of the source.  The spec describes the
  facade as configured ``with: list of explainer-method identifiers, task mode
  identifier, model callable, preprocessing function, postprocessing function'', as
  ``a configuration object that dispatches explanation requests to one or more
  underlying explanation-method implementations by name'', and \<open>explain\<close> as
  ``returning a mapping from method name to explanation object'', an explanation
  object ``exposing a rendering operation''.  The implementations are the parameter
  \<open>engines\<close>; \<open>'r\<close> is what rendering produces.
\<close>

datatype 'r explanation = Explanation (ipython_plot: 'r)

record ('m, 'p, 'q) nlp_explainer =
  cfg_explainers :: "str list"
  cfg_mode :: str
  cfg_model :: 'm
  cfg_preprocess :: 'p
  cfg_postprocess :: 'q

definition NLPExplainer ::
  "str list \<Rightarrow> str \<Rightarrow> 'm \<Rightarrow> 'p \<Rightarrow> 'q \<Rightarrow> ('m, 'p, 'q) nlp_explainer" where
  "NLPExplainer es md mo pre post =
     \<lparr>cfg_explainers = es, cfg_mode = md, cfg_model = mo,
      cfg_preprocess = pre, cfg_postprocess = post\<rparr>"

definition explain ::
  "(str \<Rightarrow> ('m, 'p, 'q) nlp_explainer \<Rightarrow> 'x \<Rightarrow> 'r explanation) \<Rightarrow>
     ('m, 'p, 'q) nlp_explainer \<Rightarrow> 'x \<Rightarrow> (str \<times> 'r explanation) list" where
  "explain engines facade x = map (\<lambda>m. (m, engines m facade x)) (cfg_explainers facade)"

subsection \<open>Predicates used in the proofs\<close>

text \<open>
  An operation on the store that changes no object: it only adds new ones.
\<close>

definition frame :: "(addr \<Rightarrow> 'v heap \<Rightarrow> (error + 'a) \<times> 'v heap) \<Rightarrow> bool" where
  "frame f = (\<forall>a h. \<exists>new. snd (f a h) = h @ new)"

text \<open>
  What the adapters compute, on values: used to show that the result of a call is
  a function of the value of its argument.
\<close>

fun values_of_value :: "'v pyval \<Rightarrow> error + 'v pyval" where
  "values_of_value (VInstance attrs) =
     (case map_of attrs ''values'' of
        None \<Rightarrow> Inl (AttributeError ''values'')
      | Some v \<Rightarrow> Inr v)"
| "values_of_value v = Inl (AttributeError ''values'')"

fun score_of_value :: "'v pyval \<Rightarrow> error + 'v pyval" where
  "score_of_value (VDict kvs) =
     (case map_of kvs (ascii ''score'') of
        None \<Rightarrow> Inl (KeyError (ascii ''score''))
      | Some v \<Rightarrow> Inr v)"
| "score_of_value v = Inl TypeError"

fun scores_of_row :: "'v pyval \<Rightarrow> error + 'v pyval list" where
  "scores_of_row (VList recs) = comprehension score_of_value recs"
| "scores_of_row v = Inl TypeError"

fun scores_of_table :: "'v pyval \<Rightarrow> error + 'v pyval list list" where
  "scores_of_table (VList rs) = comprehension scores_of_row rs"
| "scores_of_table v = Inl TypeError"

definition numbers_of_values :: "'v pyval list \<Rightarrow> 'v list option" where
  "numbers_of_values vs = those (map (\<lambda>v. case v of VAtom x \<Rightarrow> Some x | _ \<Rightarrow> None) vs)"

definition array_of_value :: "'v pyval \<Rightarrow> error + 'v pyval" where
  "array_of_value v =
     (case scores_of_table v of
        Inl e \<Rightarrow> Inl e
      | Inr t \<Rightarrow>
          (case those (map numbers_of_values t) of
             None \<Rightarrow> Inl TypeError
           | Some rs \<Rightarrow>
               (case np_array rs of
                  Inl e \<Rightarrow> Inl e
                | Inr m \<Rightarrow> Inr (VArray (rows m)))))"

text \<open>Every recorded call has returned.\<close>

definition returned :: "('o call \<times> (error + 'o val)) list \<Rightarrow> bool" where
  "returned evs = (\<forall>ev \<in> set evs. \<exists>v. snd ev = Inr v)"

text \<open>An expression that calls nothing and changes nothing.\<close>

definition pure_expr :: "('o, 'w) expr \<Rightarrow> bool" where
  "pure_expr e = (\<forall>s. \<exists>r. e s = (r, s))"

text \<open>
  An expression that binds and prints nothing and makes at most one library call, whose
  result is its own.
\<close>

definition single_call :: "('o, 'w) expr \<Rightarrow> bool" where
  "single_call e =
     (\<forall>s0 r s1. e s0 = (r, s1) \<longrightarrow>
        vars s1 = vars s0 \<and> stdout s1 = stdout s0 \<and>
        (trace s1 = trace s0 \<or> (\<exists>c. trace s1 = trace s0 @ [(c, r)])))"

text \<open>
  A statement that makes at most one library call and, when it ends with an exception,
  has bound and printed nothing and made no call but the one that raised it.
\<close>

definition careful :: "('o, 'w) stmt \<Rightarrow> bool" where
  "careful c =
     (\<forall>s0 out s1. c s0 = (out, s1) \<longrightarrow>
        (case out of
           None \<Rightarrow> trace s1 = trace s0 \<or> (\<exists>cl v. trace s1 = trace s0 @ [(cl, Inr v)])
         | Some e \<Rightarrow>
             vars s1 = vars s0 \<and> stdout s1 = stdout s0 \<and>
             (trace s1 = trace s0 \<or> (\<exists>cl. trace s1 = trace s0 @ [(cl, Inl e)]))))"

subsection \<open>Properties of the adapters\<close>

lemma comprehension_Inr:
  "(\<And>a. a \<in> set as \<Longrightarrow> f a = Inr (g a)) \<Longrightarrow> comprehension f as = Inr (map g as)"
  by (induction as) simp_all

lemma np_array_rect:
  "(\<And>r. r \<in> set rs \<Longrightarrow> length r = k) \<Longrightarrow> np_array rs = Inr (Array rs)"
  by (cases rs) (simp_all add: np_array_def)

lemma score_row:
  assumes "\<And>s. s \<in> set ss \<Longrightarrow> s (ascii ''score'') \<noteq> None"
  shows "comprehension (\<lambda>s. getitem s (ascii ''score'')) ss
           = Inr (map (\<lambda>s. the (s (ascii ''score''))) ss)"
proof (rule comprehension_Inr)
  fix s assume "s \<in> set ss"
  then have "s (ascii ''score'') \<noteq> None" by (rule assms)
  then show "getitem s (ascii ''score'') = Inr (the (s (ascii ''score'')))"
    by (auto simp: getitem_def)
qed

lemma postprocess_rect:
  assumes "\<And>ss. ss \<in> set outputs \<Longrightarrow>
             length ss = k \<and> (\<forall>s \<in> set ss. s (ascii ''score'') \<noteq> None)"
  shows "postprocess outputs
           = Inr (Array (map (map (\<lambda>s. the (s (ascii ''score'')))) outputs))"
proof -
  have "comprehension (\<lambda>ss. comprehension (\<lambda>s. getitem s (ascii ''score'')) ss) outputs
          = Inr (map (map (\<lambda>s. the (s (ascii ''score'')))) outputs)"
    by (rule comprehension_Inr) (simp add: assms score_row)
  moreover have "np_array (map (map (\<lambda>s. the (s (ascii ''score'')))) outputs)
          = Inr (Array (map (map (\<lambda>s. the (s (ascii ''score'')))) outputs))"
    by (rule np_array_rect [where k = k]) (auto simp: assms)
  ultimately show ?thesis by (simp add: postprocess_def)
qed


subsection \<open>The adapters change no object of the store\<close>

lemma frame_item: "frame (item key)"
  by (auto simp: frame_def item_def split: option.splits pyobj.splits)

lemma collect_frame: "frame f \<Longrightarrow> \<exists>new. snd (collect f as h) = h @ new"
proof (induction as arbitrary: h)
  case Nil
  then show ?case by simp
next
  case (Cons a as)
  from Cons.prems obtain n1 where n1: "snd (f a h) = h @ n1" unfolding frame_def by blast
  obtain r h1 where f: "f a h = (r, h1)" by (cases "f a h")
  with n1 have h1: "h1 = h @ n1" by simp
  from Cons.IH [OF Cons.prems, of h1] obtain n2 where n2: "snd (collect f as h1) = h1 @ n2"
    by blast
  obtain rs h2 where c: "collect f as h1 = (rs, h2)" by (cases "collect f as h1")
  with n2 h1 have "h2 = h @ n1 @ n2" by simp
  with f c h1 show ?case by (cases r; cases rs) auto
qed

lemma frame_list_comprehension: "frame f \<Longrightarrow> frame (list_comprehension f)"
  unfolding frame_def [of "list_comprehension f"]
proof (intro allI)
  fix a h
  assume fr: "frame f"
  show "\<exists>new. snd (list_comprehension f a h) = h @ new"
  proof (cases "deref h a")
    case None
    then show ?thesis by (simp add: list_comprehension_def)
  next
    case (Some ob)
    show ?thesis
    proof (cases ob)
      case (PyList as)
      from collect_frame [OF fr, of as h] obtain n where n: "snd (collect f as h) = h @ n"
        by blast
      obtain r h1 where c: "collect f as h = (r, h1)" by (cases "collect f as h")
      with n have "h1 = h @ n" by simp
      with Some PyList c show ?thesis
        by (cases r) (auto simp: list_comprehension_def alloc_def)
    qed (use Some in \<open>simp_all add: list_comprehension_def\<close>)
  qed
qed

lemma frame_np_array: "frame np_array_store"
  by (auto simp: frame_def np_array_store_def alloc_def split: option.splits sum.splits)

lemma postprocess_frame: "\<exists>new. snd (postprocess_store y h) = h @ new"
proof -
  let ?f = "list_comprehension (\<lambda>ss. list_comprehension (\<lambda>s. item (ascii ''score'') s) ss)"
  have "frame ?f"
    by (intro frame_list_comprehension) (rule frame_item [unfolded frame_def, folded frame_def])
  then obtain n1 where n1: "snd (?f y h) = h @ n1" unfolding frame_def by blast
  obtain r h1 where c: "?f y h = (r, h1)" by (cases "?f y h")
  with n1 have h1: "h1 = h @ n1" by simp
  have np: "\<exists>n2. snd (np_array_store t h1) = h1 @ n2" for t
    using frame_np_array unfolding frame_def by blast
  show ?thesis
  proof (cases r)
    case (Inl e)
    with c h1 show ?thesis by (simp add: postprocess_store_def)
  next
    case (Inr t)
    from np [of t] obtain n2 where "snd (np_array_store t h1) = h1 @ n2" by blast
    with c h1 Inr show ?thesis by (simp add: postprocess_store_def)
  qed
qed

lemma preprocess_frame: "snd (preprocess_store x h) = h"
  by (simp add: preprocess_store_def attribute_def split: option.splits pyobj.splits)

subsection \<open>The results of the adapters as values\<close>

lemma deref_append: "a < length h \<Longrightarrow> deref (h @ new) a = deref h a"
  by (simp add: deref_def nth_append)

lemma deref_Some_less: "deref h a = Some ob \<Longrightarrow> a < length h"
  by (simp add: deref_def split: if_splits)

lemma closed_refs:
  assumes "closed h" and "deref h a = Some ob"
  shows "list_all (\<lambda>b. b < length h) (refs ob)"
proof -
  from assms(2) have "a < length h" and "h ! a = ob" by (simp_all add: deref_def split: if_splits)
  then have "ob \<in> set h" by auto
  with assms(1) show ?thesis by (simp add: closed_def list_all_iff)
qed

lemma map_of_map_snd:
  "map_of (map (\<lambda>kv. (fst kv, f (snd kv))) kvs) k = map_option f (map_of kvs k)"
  by (induction kvs) auto

lemma map_of_filter_key:
  "map_of (filter (\<lambda>kv. fst kv = k) kvs) k = map_of kvs k"
  by (induction kvs) auto

lemma map_of_less:
  "list_all (\<lambda>b. b < n) (map snd kvs) \<Longrightarrow> map_of kvs k = Some b \<Longrightarrow> b < n"
  by (induction kvs) (auto split: if_splits)

lemma comprehension_map: "comprehension f (map g as) = comprehension (\<lambda>a. f (g a)) as"
  by (induction as) (simp_all split: sum.splits)

lemma numbers_value: "numbers h bs = numbers_of_values (map (value_of (Suc 0) h) bs)"
proof -
  have "(case deref h b of Some (Atom v) \<Rightarrow> Some v | _ \<Rightarrow> None)
      = (case value_of (Suc 0) h b of VAtom x \<Rightarrow> Some x | _ \<Rightarrow> None)" for b
    by (simp split: option.splits pyobj.splits)
  then show ?thesis by (simp add: numbers_def numbers_of_values_def comp_def)
qed

lemma numbers_append:
  assumes "list_all (\<lambda>b. b < length h) bs"
  shows "numbers (h @ new) bs = numbers h bs"
proof -
  have "map (\<lambda>a. case deref (h @ new) a of Some (Atom v) \<Rightarrow> Some v | _ \<Rightarrow> None) bs
      = map (\<lambda>a. case deref h a of Some (Atom v) \<Rightarrow> Some v | _ \<Rightarrow> None) bs"
    by (rule map_cong [OF refl]) (use assms in \<open>simp add: list_all_iff deref_append\<close>)
  then show ?thesis by (simp only: numbers_def)
qed

lemma preprocess_value:
  "result_value d (preprocess_store x h) = values_of_value (value_of (Suc d) h x)"
  by (simp add: preprocess_store_def attribute_def result_value_def map_of_map_snd
        split: option.splits pyobj.splits)

lemma values_of_value_only: "values_of_value (only_values v) = values_of_value v"
  by (cases v) (simp_all add: map_of_filter_key)

lemma item_value:
  assumes "closed h" and "s < length h"
  shows "\<exists>r. item (ascii ''score'') s (h @ new) = (r, h @ new) \<and>
    (case r of
       Inl e \<Rightarrow> score_of_value (value_of (Suc (Suc 0)) h s) = Inl e
     | Inr b \<Rightarrow> b < length h \<and>
         score_of_value (value_of (Suc (Suc 0)) h s) = Inr (value_of (Suc 0) h b))"
proof -
  from assms(2) obtain ob where ob: "deref h s = Some ob" by (simp add: deref_def)
  with assms(2) have ob': "deref (h @ new) s = Some ob" by (simp add: deref_append)
  show ?thesis
  proof (cases ob)
    case (PyDict kvs)
    from closed_refs [OF assms(1) ob] PyDict
    have less: "list_all (\<lambda>b. b < length h) (map snd kvs)" by simp
    have v: "value_of (Suc (Suc 0)) h s
               = VDict (map (\<lambda>kv. (fst kv, value_of (Suc 0) h (snd kv))) kvs)"
      using ob PyDict by (simp del: value_of.simps add: value_of.simps(2) [of "Suc 0"])
    have sc: "score_of_value (value_of (Suc (Suc 0)) h s)
               = (case map_of kvs (ascii ''score'') of
                    None \<Rightarrow> Inl (KeyError (ascii ''score''))
                  | Some b \<Rightarrow> Inr (value_of (Suc 0) h b))"
      unfolding v by (simp del: value_of.simps add: map_of_map_snd split: option.splits)
    show ?thesis
    proof (cases "map_of kvs (ascii ''score'')")
      case None
      with ob' PyDict sc show ?thesis
        by (simp del: value_of.simps add: item_def)
    next
      case (Some b)
      with less have "b < length h" by (rule map_of_less)
      with Some ob' PyDict sc show ?thesis
        by (simp del: value_of.simps add: item_def)
    qed
  qed (use ob ob' in \<open>simp_all add: item_def\<close>)
qed

lemma collect_item_value:
  assumes "closed h" and "list_all (\<lambda>s. s < length h) recs"
  shows "\<exists>r. collect (item (ascii ''score'')) recs (h @ new) = (r, h @ new) \<and>
    (case r of
       Inl e \<Rightarrow> comprehension score_of_value (map (value_of (Suc (Suc 0)) h) recs) = Inl e
     | Inr bs \<Rightarrow> list_all (\<lambda>b. b < length h) bs \<and>
         comprehension score_of_value (map (value_of (Suc (Suc 0)) h) recs)
           = Inr (map (value_of (Suc 0) h) bs))"
  using assms(2)
proof (induction recs)
  case Nil
  then show ?case by simp
next
  case (Cons s recs)
  from Cons.prems have s: "s < length h" and rest: "list_all (\<lambda>s. s < length h) recs"
    by simp_all
  from item_value [OF assms(1) s, of new] obtain r1
    where i1: "item (ascii ''score'') s (h @ new) = (r1, h @ new)"
      and v1: "case r1 of
         Inl e \<Rightarrow> score_of_value (value_of (Suc (Suc 0)) h s) = Inl e
       | Inr b \<Rightarrow> b < length h \<and>
           score_of_value (value_of (Suc (Suc 0)) h s) = Inr (value_of (Suc 0) h b)"
    by blast
  from Cons.IH [OF rest] obtain r2
    where i2: "collect (item (ascii ''score'')) recs (h @ new) = (r2, h @ new)"
      and v2: "case r2 of
         Inl e \<Rightarrow> comprehension score_of_value (map (value_of (Suc (Suc 0)) h) recs) = Inl e
       | Inr bs \<Rightarrow> list_all (\<lambda>b. b < length h) bs \<and>
           comprehension score_of_value (map (value_of (Suc (Suc 0)) h) recs)
             = Inr (map (value_of (Suc 0) h) bs)"
    by blast
  show ?case
  proof (cases r1)
    case (Inl e)
    with i1 v1 show ?thesis by simp
  next
    case (Inr b)
    with i1 i2 v1 v2 show ?thesis by (cases r2) simp_all
  qed
qed

lemma row_value:
  assumes "closed h" and "ss < length h"
  shows "\<exists>r h'. list_comprehension (item (ascii ''score'')) ss (h @ new) = (r, h') \<and>
    (case r of
       Inl e \<Rightarrow> scores_of_row (value_of (Suc (Suc (Suc 0))) h ss) = Inl e \<and> h' = h @ new
     | Inr t \<Rightarrow> \<exists>bs. h' = h @ new @ [PyList bs] \<and> t = length (h @ new) \<and>
         list_all (\<lambda>b. b < length h) bs \<and>
         scores_of_row (value_of (Suc (Suc (Suc 0))) h ss) = Inr (map (value_of (Suc 0) h) bs))"
proof -
  from assms(2) obtain ob where ob: "deref h ss = Some ob" by (simp add: deref_def)
  with assms(2) have ob': "deref (h @ new) ss = Some ob" by (simp add: deref_append)
  show ?thesis
  proof (cases ob)
    case (PyList recs)
    from closed_refs [OF assms(1) ob] PyList
    have less: "list_all (\<lambda>s. s < length h) recs" by simp
    from collect_item_value [OF assms(1) less, of new] obtain r
      where c: "collect (item (ascii ''score'')) recs (h @ new) = (r, h @ new)"
        and v: "case r of
          Inl e \<Rightarrow> comprehension score_of_value (map (value_of (Suc (Suc 0)) h) recs) = Inl e
        | Inr bs \<Rightarrow> list_all (\<lambda>b. b < length h) bs \<and>
            comprehension score_of_value (map (value_of (Suc (Suc 0)) h) recs)
              = Inr (map (value_of (Suc 0) h) bs)"
      by blast
    from ob ob' PyList c v show ?thesis
      by (cases r) (simp_all add: list_comprehension_def alloc_def)
  qed (use ob ob' in \<open>simp_all add: list_comprehension_def\<close>)
qed

lemma table_value:
  assumes "closed h" and "list_all (\<lambda>ss. ss < length h) rs"
  shows "\<exists>r h'. collect (list_comprehension (item (ascii ''score''))) rs (h @ new) = (r, h') \<and>
    (case r of
       Inl e \<Rightarrow> comprehension scores_of_row (map (value_of (Suc (Suc (Suc 0))) h) rs) = Inl e
     | Inr ts \<Rightarrow> \<exists>bss added. h' = h @ new @ added \<and>
         list_all2 (\<lambda>t bs. deref h' t = Some (PyList bs)) ts bss \<and>
         list_all (list_all (\<lambda>b. b < length h)) bss \<and>
         comprehension scores_of_row (map (value_of (Suc (Suc (Suc 0))) h) rs)
           = Inr (map (map (value_of (Suc 0) h)) bss))"
  using assms(2)
proof (induction rs arbitrary: new)
  case Nil
  then show ?case by simp
next
  case (Cons ss rs)
  from Cons.prems have ss: "ss < length h" and rest: "list_all (\<lambda>ss. ss < length h) rs"
    by simp_all
  from row_value [OF assms(1) ss, of new] obtain r1 h1
    where c1: "list_comprehension (item (ascii ''score'')) ss (h @ new) = (r1, h1)"
      and v1: "case r1 of
         Inl e \<Rightarrow> scores_of_row (value_of (Suc (Suc (Suc 0))) h ss) = Inl e \<and> h1 = h @ new
       | Inr t \<Rightarrow> \<exists>bs. h1 = h @ new @ [PyList bs] \<and> t = length (h @ new) \<and>
           list_all (\<lambda>b. b < length h) bs \<and>
           scores_of_row (value_of (Suc (Suc (Suc 0))) h ss) = Inr (map (value_of (Suc 0) h) bs)"
    by blast
  show ?case
  proof (cases r1)
    case (Inl e)
    with c1 v1 show ?thesis by (simp del: value_of.simps)
  next
    case (Inr t)
    with v1 obtain bs where h1: "h1 = h @ (new @ [PyList bs])" and t: "t = length (h @ new)"
      and bs: "list_all (\<lambda>b. b < length h) bs"
      and row: "scores_of_row (value_of (Suc (Suc (Suc 0))) h ss)
                  = Inr (map (value_of (Suc 0) h) bs)"
      by auto
    from Cons.IH [OF rest, of "new @ [PyList bs]"] obtain r2 h2
      where c2: "collect (list_comprehension (item (ascii ''score''))) rs
                   (h @ new @ [PyList bs]) = (r2, h2)"
        and v2: "case r2 of
           Inl e \<Rightarrow> comprehension scores_of_row (map (value_of (Suc (Suc (Suc 0))) h) rs) = Inl e
         | Inr ts \<Rightarrow> \<exists>bss added. h2 = h @ (new @ [PyList bs]) @ added \<and>
             list_all2 (\<lambda>t bs. deref h2 t = Some (PyList bs)) ts bss \<and>
             list_all (list_all (\<lambda>b. b < length h)) bss \<and>
             comprehension scores_of_row (map (value_of (Suc (Suc (Suc 0))) h) rs)
               = Inr (map (map (value_of (Suc 0) h)) bss)"
      by blast
    show ?thesis
    proof (cases r2)
      case (Inl e)
      with c1 c2 v2 Inr h1 row show ?thesis by (simp del: value_of.simps)
    next
      case r2: (Inr ts)
      with v2 obtain bss added where h2: "h2 = h @ (new @ [PyList bs]) @ added"
        and all2: "list_all2 (\<lambda>t bs. deref h2 t = Some (PyList bs)) ts bss"
        and less: "list_all (list_all (\<lambda>b. b < length h)) bss"
        and tab: "comprehension scores_of_row (map (value_of (Suc (Suc (Suc 0))) h) rs)
               = Inr (map (map (value_of (Suc 0) h)) bss)"
        by auto
      have dt: "deref h2 t = Some (PyList bs)"
        unfolding h2 t by (simp add: deref_def nth_append)
      have res: "collect (list_comprehension (item (ascii ''score''))) (ss # rs) (h @ new)
                   = (Inr (t # ts), h2)"
        using c1 c2 Inr r2 h1 by simp
      have "h2 = h @ new @ ([PyList bs] @ added) \<and>
         list_all2 (\<lambda>t bs. deref h2 t = Some (PyList bs)) (t # ts) (bs # bss) \<and>
         list_all (list_all (\<lambda>b. b < length h)) (bs # bss) \<and>
         comprehension scores_of_row (map (value_of (Suc (Suc (Suc 0))) h) (ss # rs))
           = Inr (map (map (value_of (Suc 0) h)) (bs # bss))"
        using h2 all2 less tab dt bs row by (simp del: value_of.simps)
      then have "\<exists>bss added. h2 = h @ new @ added \<and>
         list_all2 (\<lambda>t bs. deref h2 t = Some (PyList bs)) (t # ts) bss \<and>
         list_all (list_all (\<lambda>b. b < length h)) bss \<and>
         comprehension scores_of_row (map (value_of (Suc (Suc (Suc 0))) h) (ss # rs))
           = Inr (map (map (value_of (Suc 0) h)) bss)"
        by blast
      with res show ?thesis by (simp del: value_of.simps)
    qed
  qed
qed

lemma nested_rows:
  assumes "list_all2 (\<lambda>t bs. deref h' t = Some (PyList bs)) ts bss"
    and "list_all (list_all (\<lambda>b. b < length h)) bss"
    and "h2 = h @ added" and "h2 = h' @ [PyList ts]"
  shows "nested h2 (length h')
           = those (map numbers_of_values (map (map (value_of (Suc 0) h)) bss))"
proof -
  have top: "deref h2 (length h') = Some (PyList ts)"
    by (simp add: assms(4) deref_def)
  have "map (\<lambda>r. case deref h2 r of Some (PyList as) \<Rightarrow> numbers h2 as | _ \<Rightarrow> None) ts
      = map (\<lambda>bs. numbers_of_values (map (value_of (Suc 0) h) bs)) bss"
    using assms(1,2)
  proof (induction ts bss rule: list_all2_induct)
    case Nil
    then show ?case by simp
  next
    case (Cons t ts bs bss)
    from Cons.hyps(1) have "t < length h'" by (rule deref_Some_less)
    with Cons.hyps(1) have "deref h2 t = Some (PyList bs)"
      by (simp add: assms(4) deref_append)
    moreover from Cons.prems have "numbers h2 bs = numbers h bs"
      unfolding assms(3) by (simp add: numbers_append)
    ultimately show ?case
      using Cons.IH Cons.prems by (simp del: value_of.simps add: numbers_value)
  qed
  with top show ?thesis by (simp del: value_of.simps add: nested_def comp_def)
qed

lemma postprocess_value:
  assumes "closed h"
  shows "result_value (Suc 0) (postprocess_store y h)
           = array_of_value (value_of (Suc (Suc (Suc (Suc 0)))) h y)"
proof (cases "deref h y")
  case None
  then show ?thesis
    by (simp add: postprocess_store_def list_comprehension_def result_value_def
          array_of_value_def)
next
  case (Some ob)
  show ?thesis
  proof (cases ob)
    case (PyList rs)
    from closed_refs [OF assms Some] PyList
    have less: "list_all (\<lambda>ss. ss < length h) rs" by simp
    have val: "value_of (Suc (Suc (Suc (Suc 0)))) h y
                 = VList (map (value_of (Suc (Suc (Suc 0))) h) rs)"
      using Some PyList
      by (simp del: value_of.simps add: value_of.simps(2) [of "Suc (Suc (Suc 0))"])
    from table_value [OF assms less, of "[]"] obtain r h'
      where c: "collect (list_comprehension (item (ascii ''score''))) rs h = (r, h')"
        and v: "case r of
          Inl e \<Rightarrow> comprehension scores_of_row (map (value_of (Suc (Suc (Suc 0))) h) rs) = Inl e
        | Inr ts \<Rightarrow> \<exists>bss added. h' = h @ [] @ added \<and>
            list_all2 (\<lambda>t bs. deref h' t = Some (PyList bs)) ts bss \<and>
            list_all (list_all (\<lambda>b. b < length h)) bss \<and>
            comprehension scores_of_row (map (value_of (Suc (Suc (Suc 0))) h) rs)
              = Inr (map (map (value_of (Suc 0) h)) bss)"
      by (auto simp del: value_of.simps)
    show ?thesis
    proof (cases r)
      case (Inl e)
      with c v Some PyList show ?thesis
        unfolding val
        by (simp del: value_of.simps add: postprocess_store_def list_comprehension_def
              result_value_def array_of_value_def)
    next
      case (Inr ts)
      with v obtain bss added where h': "h' = h @ added"
        and all2: "list_all2 (\<lambda>t bs. deref h' t = Some (PyList bs)) ts bss"
        and lessb: "list_all (list_all (\<lambda>b. b < length h)) bss"
        and tab: "comprehension scores_of_row (map (value_of (Suc (Suc (Suc 0))) h) rs)
              = Inr (map (map (value_of (Suc 0) h)) bss)"
        by auto
      let ?h2 = "h' @ [PyList ts]"
      have lc: "list_comprehension (list_comprehension (item (ascii ''score''))) y h
                  = (Inr (length h'), ?h2)"
        using Some PyList c Inr by (simp add: list_comprehension_def alloc_def)
      have nest: "nested ?h2 (length h')
           = those (map numbers_of_values (map (map (value_of (Suc 0) h)) bss))"
        by (rule nested_rows [OF all2 lessb _ refl]) (simp add: h')
      have post: "postprocess_store y h = np_array_store (length h') ?h2"
        using lc by (simp add: postprocess_store_def)
      show ?thesis
        unfolding post val
        by (simp del: value_of.simps
              add: np_array_store_def nest array_of_value_def tab result_value_def alloc_def
                   value_of.simps(2) [of 0] deref_def nth_append
              split: option.splits sum.splits)
    qed
  qed (use Some in \<open>simp_all add: postprocess_store_def list_comprehension_def
         result_value_def array_of_value_def\<close>)
qed

lemma score_of_value_only: "score_of_value (only_score v) = score_of_value v"
  by (cases v) (simp_all add: map_of_filter_key)

lemma scores_of_row_only: "scores_of_row (only_scores_row v) = scores_of_row v"
  by (cases v) (simp_all add: comprehension_map score_of_value_only)

lemma scores_of_table_only: "scores_of_table (only_scores v) = scores_of_table v"
  by (cases v) (simp_all add: comprehension_map scores_of_row_only)

lemma array_of_value_only: "array_of_value (only_scores v) = array_of_value v"
  by (simp add: array_of_value_def scores_of_table_only)

subsection \<open>Running the cells\<close>

lemma exec_append:
  "exec (cs @ ds) s0 =
     (case exec cs s0 of (None, s1) \<Rightarrow> exec ds s1 | (Some e, s1) \<Rightarrow> (Some e, s1))"
  by (induction cs arbitrary: s0) (auto split: prod.splits option.splits)

lemma exec_append_None:
  "exec (cs @ ds) s0 = (None, s) \<Longrightarrow> \<exists>s1. exec cs s0 = (None, s1) \<and> exec ds s1 = (None, s)"
  by (auto simp: exec_append split: prod.splits option.splits)

lemmas stmt_defs = assign_def expr_stmt_def print_def call_global_def call_method_def
  subscript_def invoke_def lit_def var_def

lemma input_pattern:
  assumes "exec [assign x (call_global lib f [lit a] [])] s0 = (None, s1)"
  shows "\<exists>xv w1.
    lib (Call (Global f) [a] []) (world s0) = (Inr xv, w1) \<and>
    s1 = s0\<lparr>vars := (vars s0)(x \<mapsto> xv),
            trace := trace s0 @ [(Call (Global f) [a] [], Inr xv)],
            world := w1\<rparr>"
  using assms by (auto simp: stmt_defs split: prod.splits sum.splits)

lemma setup_pattern:
  assumes "exec [assign p (lit pv),
                 assign m (call_global lib f [lit a] [(k1, lit b), (k2, lit c)]),
                 assign q (lit qv),
                 assign e (call_global lib g []
                   [(k3, lit d), (k4, lit d'), (k5, var m), (k6, var p), (k7, var q)])] s0
           = (None, s1)"
    and "p \<noteq> m" and "p \<noteq> q" and "m \<noteq> q"
  shows "\<exists>mv ev w1 w2.
    lib (Call (Global f) [a] [(k1, b), (k2, c)]) (world s0) = (Inr mv, w1) \<and>
    lib (Call (Global g) [] [(k3, d), (k4, d'), (k5, mv), (k6, pv), (k7, qv)]) w1 = (Inr ev, w2) \<and>
    s1 = s0\<lparr>vars := (vars s0)(p \<mapsto> pv, m \<mapsto> mv, q \<mapsto> qv, e \<mapsto> ev),
            trace := trace s0 @
              [(Call (Global f) [a] [(k1, b), (k2, c)], Inr mv),
               (Call (Global g) [] [(k3, d), (k4, d'), (k5, mv), (k6, pv), (k7, qv)], Inr ev)],
            world := w2\<rparr>"
  using assms by (auto simp: stmt_defs split: prod.splits sum.splits)

lemma explain_pattern:
  assumes "exec [assign le (call_method lib (var ex) m [var x] []),
                 print l1,
                 expr_stmt (call_method lib (subscript (var le) ka) pm [] []),
                 print l2,
                 expr_stmt (call_method lib (subscript (var le) kb) pm [] [])] s0
           = (None, s1)"
    and "vars s0 x = Some xv"
  shows "\<exists>ev kvs so sl r1 r2 w1 w2 w3.
    vars s0 ex = Some (Obj ev) \<and>
    lib (Call (Method ev m) [xv] []) (world s0) = (Inr (Dict kvs), w1) \<and>
    map_of kvs ka = Some (Obj so) \<and>
    lib (Call (Method so pm) [] []) w1 = (Inr r1, w2) \<and>
    map_of kvs kb = Some (Obj sl) \<and>
    lib (Call (Method sl pm) [] []) w2 = (Inr r2, w3) \<and>
    s1 = s0\<lparr>vars := (vars s0)(le \<mapsto> Dict kvs),
            stdout := stdout s0 @ [l1, l2],
            trace := trace s0 @
              [(Call (Method ev m) [xv] [], Inr (Dict kvs)),
               (Call (Method so pm) [] [], Inr r1),
               (Call (Method sl pm) [] [], Inr r2)],
            world := w3\<rparr>"
  using assms
  by (auto simp: stmt_defs split: prod.splits sum.splits option.splits val.splits)

lemma dashboard_pattern:
  assumes "exec [assign d (call_global lib g [] [(k1, var x), (k2, var le)]),
                 expr_stmt (call_method lib (var d) sh [] [])] s0
           = (None, s1)"
    and "vars s0 x = Some xv" and "vars s0 le = Some lev"
  shows "\<exists>dv r w1 w2.
    lib (Call (Global g) [] [(k1, xv), (k2, lev)]) (world s0) = (Inr (Obj dv), w1) \<and>
    lib (Call (Method dv sh) [] []) w1 = (Inr r, w2) \<and>
    s1 = s0\<lparr>vars := (vars s0)(d \<mapsto> Obj dv),
            trace := trace s0 @
              [(Call (Global g) [] [(k1, xv), (k2, lev)], Inr (Obj dv)),
               (Call (Method dv sh) [] [], Inr r)],
            world := w2\<rparr>"
  using assms
  by (auto simp: stmt_defs split: prod.splits sum.splits option.splits val.splits)

lemma run_None:
  assumes "run lib w = (None, s)"
  shows "\<exists>xv mv ev kvs so sl dv r1 r2 r3.
    trace s =
      [(Call (Global ''Text'') [List [Str sentence1, Str sentence2]] [], Inr xv),
       (Call (Global ''transformers.pipeline'') [Str (ascii ''sentiment-analysis'')]
          [(''model'', Str (ascii ''distilbert-base-uncased-finetuned-sst-2-english'')),
           (''return_all_scores'', Bool True)], Inr mv),
       (Call (Global ''NLPExplainer'') []
          [(''explainers'', List [Str (ascii ''shap''), Str (ascii ''lime'')]),
           (''mode'', Str (ascii ''classification'')),
           (''model'', mv),
           (''preprocess'', Fun Lambda_preprocess),
           (''postprocess'', Fun Lambda_postprocess)], Inr (Obj ev)),
       (Call (Method ev ''explain'') [xv] [], Inr (Dict kvs)),
       (Call (Method so ''ipython_plot'') [] [], Inr r1),
       (Call (Method sl ''ipython_plot'') [] [], Inr r2),
       (Call (Global ''Dashboard'') []
          [(''instances'', xv), (''local_explanations'', Dict kvs)], Inr (Obj dv)),
       (Call (Method dv ''show'') [] [], Inr r3)]
    \<and> map_of kvs (ascii ''shap'') = Some (Obj so)
    \<and> map_of kvs (ascii ''lime'') = Some (Obj sl)
    \<and> stdout s = [ascii ''SHAP results:'', ascii ''LIME results:'']"
proof -
  from assms obtain s1 s2 s3
    where e1: "exec (cell_input lib) (initial w) = (None, s1)"
      and e2: "exec (cell_setup lib) s1 = (None, s2)"
      and e3: "exec (cell_explain lib) s2 = (None, s3)"
      and e4: "exec (cell_dashboard lib) s3 = (None, s)"
    unfolding run_def script_def by (blast dest: exec_append_None)
  from input_pattern [OF e1 [unfolded cell_input_def]]
  obtain xv where x1: "vars s1 ''x'' = Some xv"
    and t1: "trace s1 = [(Call (Global ''Text'') [List [Str sentence1, Str sentence2]] [], Inr xv)]"
    and o1: "stdout s1 = []"
    by (auto simp: initial_def)
  have "''preprocess'' \<noteq> ''model''" "''preprocess'' \<noteq> ''postprocess''"
    "''model'' \<noteq> ''postprocess''" by simp_all
  from setup_pattern [OF e2 [unfolded cell_setup_def] this]
  obtain mv evv where x2: "vars s2 ''x'' = Some xv"
    and ex2: "vars s2 ''explainer'' = Some evv"
    and t2: "trace s2 = trace s1 @
      [(Call (Global ''transformers.pipeline'') [Str (ascii ''sentiment-analysis'')]
          [(''model'', Str (ascii ''distilbert-base-uncased-finetuned-sst-2-english'')),
           (''return_all_scores'', Bool True)], Inr mv),
       (Call (Global ''NLPExplainer'') []
          [(''explainers'', List [Str (ascii ''shap''), Str (ascii ''lime'')]),
           (''mode'', Str (ascii ''classification'')),
           (''model'', mv),
           (''preprocess'', Fun Lambda_preprocess),
           (''postprocess'', Fun Lambda_postprocess)], Inr evv)]"
    and o2: "stdout s2 = stdout s1"
    using x1 by auto
  from explain_pattern [OF e3 [unfolded cell_explain_def] x2]
  obtain ev kvs so sl r1 r2 where ev: "vars s2 ''explainer'' = Some (Obj ev)"
    and so: "map_of kvs (ascii ''shap'') = Some (Obj so)"
    and sl: "map_of kvs (ascii ''lime'') = Some (Obj sl)"
    and x3: "vars s3 ''x'' = Some xv"
    and le3: "vars s3 ''local_explanations'' = Some (Dict kvs)"
    and t3: "trace s3 = trace s2 @
      [(Call (Method ev ''explain'') [xv] [], Inr (Dict kvs)),
       (Call (Method so ''ipython_plot'') [] [], Inr r1),
       (Call (Method sl ''ipython_plot'') [] [], Inr r2)]"
    and o3: "stdout s3 = stdout s2 @ [ascii ''SHAP results:'', ascii ''LIME results:'']"
    using x2 by auto
  from dashboard_pattern [OF e4 [unfolded cell_dashboard_def] x3 le3]
  obtain dv r3 where t4: "trace s = trace s3 @
      [(Call (Global ''Dashboard'') []
          [(''instances'', xv), (''local_explanations'', Dict kvs)], Inr (Obj dv)),
       (Call (Method dv ''show'') [] [], Inr r3)]"
    and o4: "stdout s = stdout s3"
    by auto
  from ev ex2 have evv: "evv = Obj ev" by simp
  have tr: "trace s =
      [(Call (Global ''Text'') [List [Str sentence1, Str sentence2]] [], Inr xv),
       (Call (Global ''transformers.pipeline'') [Str (ascii ''sentiment-analysis'')]
          [(''model'', Str (ascii ''distilbert-base-uncased-finetuned-sst-2-english'')),
           (''return_all_scores'', Bool True)], Inr mv),
       (Call (Global ''NLPExplainer'') []
          [(''explainers'', List [Str (ascii ''shap''), Str (ascii ''lime'')]),
           (''mode'', Str (ascii ''classification'')),
           (''model'', mv),
           (''preprocess'', Fun Lambda_preprocess),
           (''postprocess'', Fun Lambda_postprocess)], Inr (Obj ev)),
       (Call (Method ev ''explain'') [xv] [], Inr (Dict kvs)),
       (Call (Method so ''ipython_plot'') [] [], Inr r1),
       (Call (Method sl ''ipython_plot'') [] [], Inr r2),
       (Call (Global ''Dashboard'') []
          [(''instances'', xv), (''local_explanations'', Dict kvs)], Inr (Obj dv)),
       (Call (Method dv ''show'') [] [], Inr r3)]"
    unfolding t4 t3 t2 t1 evv by simp
  have out: "stdout s = [ascii ''SHAP results:'', ascii ''LIME results:'']"
    unfolding o4 o3 o2 o1 by simp
  show ?thesis
    apply (rule exI [of _ xv], rule exI [of _ mv], rule exI [of _ ev], rule exI [of _ kvs])
    apply (rule exI [of _ so], rule exI [of _ sl], rule exI [of _ dv])
    apply (rule exI [of _ r1], rule exI [of _ r2], rule exI [of _ r3])
    apply (intro conjI)
       apply (rule tr)
      apply (rule so)
     apply (rule sl)
    apply (rule out)
    done
qed

subsection \<open>No statement of the script handles an exception\<close>

lemma pure_lit: "pure_expr (lit v)"
  by (simp add: pure_expr_def lit_def)

lemma pure_var: "pure_expr (var n)"
  by (simp add: pure_expr_def var_def split: option.splits)

lemma pure_subscript: "pure_expr obj \<Longrightarrow> pure_expr (subscript obj key)"
  unfolding pure_expr_def subscript_def
proof
  fix s assume "\<forall>s. \<exists>r. obj s = (r, s)"
  then obtain r where "obj s = (r, s)" by blast
  then show "\<exists>r. (case obj s of
        (Inl e, s1) \<Rightarrow> (Inl e, s1)
      | (Inr v, s1) \<Rightarrow>
          (case v of
             Dict kvs \<Rightarrow>
               (case map_of kvs key of
                  None \<Rightarrow> (Inl (KeyError key), s1)
                | Some u \<Rightarrow> (Inr u, s1))
           | _ \<Rightarrow> (Inl TypeError, s1))) = (r, s)"
    by (simp split: sum.splits val.splits option.splits)
qed

lemma pure_args:
  "list_all pure_expr as \<Longrightarrow> \<exists>r. eval_args as s = (r, s)"
proof (induction as)
  case Nil
  then show ?case by simp
next
  case (Cons a as)
  from Cons.prems have a: "pure_expr a" and as: "list_all pure_expr as" by simp_all
  from a obtain r where "a s = (r, s)" unfolding pure_expr_def by blast
  moreover from Cons.IH [OF as] obtain rs where "eval_args as s = (rs, s)" by blast
  ultimately show ?case by (simp split: sum.splits)
qed

lemma pure_kwargs:
  "list_all (\<lambda>ka. pure_expr (snd ka)) kas \<Longrightarrow> \<exists>r. eval_kwargs kas s = (r, s)"
proof (induction kas)
  case Nil
  then show ?case by simp
next
  case (Cons ka kas)
  obtain k a where ka: "ka = (k, a)" by (cases ka)
  from Cons.prems ka have a: "pure_expr a"
    and kas: "list_all (\<lambda>ka. pure_expr (snd ka)) kas" by simp_all
  from a obtain r where "a s = (r, s)" unfolding pure_expr_def by blast
  moreover from Cons.IH [OF kas] obtain rs where "eval_kwargs kas s = (rs, s)" by blast
  ultimately show ?case using ka by (simp split: sum.splits)
qed

lemma single_call_invoke:
  assumes "list_all pure_expr as" and "list_all (\<lambda>ka. pure_expr (snd ka)) kas"
  shows "single_call (invoke lib f as kas)"
  unfolding single_call_def
proof (intro allI impI)
  fix s0 r s1
  assume run: "invoke lib f as kas s0 = (r, s1)"
  obtain ra where a: "eval_args as s0 = (ra, s0)" using pure_args [OF assms(1)] by blast
  obtain rk where k: "eval_kwargs kas s0 = (rk, s0)" using pure_kwargs [OF assms(2)] by blast
  from run a k show "vars s1 = vars s0 \<and> stdout s1 = stdout s0 \<and>
        (trace s1 = trace s0 \<or> (\<exists>c. trace s1 = trace s0 @ [(c, r)]))"
    by (auto simp: invoke_def split: sum.splits prod.splits)
qed

lemma single_call_global:
  "list_all pure_expr as \<Longrightarrow> list_all (\<lambda>ka. pure_expr (snd ka)) kas \<Longrightarrow>
   single_call (call_global lib name as kas)"
  by (simp add: call_global_def single_call_invoke)

lemma single_call_method:
  assumes "pure_expr obj" and "list_all pure_expr as"
    and "list_all (\<lambda>ka. pure_expr (snd ka)) kas"
  shows "single_call (call_method lib obj name as kas)"
  unfolding single_call_def
proof (intro allI impI)
  fix s0 r s1
  assume run: "call_method lib obj name as kas s0 = (r, s1)"
  obtain ro where o: "obj s0 = (ro, s0)" using assms(1) by (auto simp: pure_expr_def)
  have inv: "\<And>ob. invoke lib (Method ob name) as kas s0 = (r, s1) \<Longrightarrow>
     vars s1 = vars s0 \<and> stdout s1 = stdout s0 \<and>
        (trace s1 = trace s0 \<or> (\<exists>c. trace s1 = trace s0 @ [(c, r)]))"
    using single_call_invoke [OF assms(2,3)] unfolding single_call_def by blast
  from run o inv show "vars s1 = vars s0 \<and> stdout s1 = stdout s0 \<and>
        (trace s1 = trace s0 \<or> (\<exists>c. trace s1 = trace s0 @ [(c, r)]))"
    by (auto simp: call_method_def split: sum.splits val.splits)
qed

lemma single_call_pure: "pure_expr e \<Longrightarrow> single_call e"
  unfolding single_call_def pure_expr_def by (metis prod.inject)

lemma careful_assign: "single_call e \<Longrightarrow> careful (assign n e)"
  unfolding single_call_def careful_def assign_def
  by (auto split: prod.splits sum.splits option.splits) blast+

lemma careful_expr_stmt: "single_call e \<Longrightarrow> careful (expr_stmt e)"
  unfolding single_call_def careful_def expr_stmt_def
  by (auto split: prod.splits sum.splits option.splits) blast+

lemma careful_print: "careful (print l)"
  by (simp add: careful_def print_def)

lemma careful_assign_lit: "careful (assign n (lit v))"
  by (rule careful_assign, rule single_call_pure, rule pure_lit)

lemma careful_script: "c \<in> set (script lib) \<Longrightarrow> careful c"
  unfolding script_def cell_input_def cell_setup_def cell_explain_def cell_dashboard_def
  by (auto intro!: careful_assign_lit careful_assign careful_expr_stmt careful_print
        single_call_global single_call_method pure_lit pure_var pure_subscript)

lemma returned_append: "returned (xs @ ys) \<longleftrightarrow> returned xs \<and> returned ys"
  by (auto simp: returned_def)

lemma exec_careful:
  assumes "\<And>c. c \<in> set cs \<Longrightarrow> careful c"
    and "exec cs s0 = (out, s)" and "returned (trace s0)"
  shows "case out of
           None \<Rightarrow> returned (trace s)
         | Some e \<Rightarrow>
             \<exists>pre c post s1. cs = pre @ c # post \<and> exec pre s0 = (None, s1) \<and>
               c s1 = (Some e, s) \<and> vars s = vars s1 \<and> stdout s = stdout s1 \<and>
               returned (trace s1) \<and>
               (trace s = trace s1 \<or> (\<exists>cl. trace s = trace s1 @ [(cl, Inl e)]))"
  using assms
proof (induction cs arbitrary: s0)
  case Nil
  then show ?case by simp
next
  case (Cons c cs)
  have c: "careful c" by (rule Cons.prems(1)) simp
  obtain o1 s1 where step: "c s0 = (o1, s1)" by (cases "c s0")
  show ?case
  proof (cases o1)
    case None
    with step Cons.prems(2) have rest: "exec cs s1 = (out, s)" by simp
    from c step None have "trace s1 = trace s0 \<or> (\<exists>cl v. trace s1 = trace s0 @ [(cl, Inr v)])"
      unfolding careful_def by fastforce
    with Cons.prems(3) have r1: "returned (trace s1)"
      by (auto simp: returned_def)
    have IH: "case out of
           None \<Rightarrow> returned (trace s)
         | Some e \<Rightarrow>
             \<exists>pre c post s1'. cs = pre @ c # post \<and> exec pre s1 = (None, s1') \<and>
               c s1' = (Some e, s) \<and> vars s = vars s1' \<and> stdout s = stdout s1' \<and>
               returned (trace s1') \<and>
               (trace s = trace s1' \<or> (\<exists>cl. trace s = trace s1' @ [(cl, Inl e)]))"
      by (rule Cons.IH [OF _ rest r1]) (simp add: Cons.prems(1))
    show ?thesis
    proof (cases out)
      case None
      with IH show ?thesis by simp
    next
      case (Some e)
      with IH obtain pre c' post s1' where "cs = pre @ c' # post"
        and "exec pre s1 = (None, s1')" and "c' s1' = (Some e, s)"
        and "vars s = vars s1'" and "stdout s = stdout s1'" and "returned (trace s1')"
        and "trace s = trace s1' \<or> (\<exists>cl. trace s = trace s1' @ [(cl, Inl e)])"
        by auto
      with step \<open>o1 = None\<close> have "c # cs = (c # pre) @ c' # post \<and>
          exec (c # pre) s0 = (None, s1') \<and> c' s1' = (Some e, s) \<and>
          vars s = vars s1' \<and> stdout s = stdout s1' \<and> returned (trace s1') \<and>
          (trace s = trace s1' \<or> (\<exists>cl. trace s = trace s1' @ [(cl, Inl e)]))"
        by simp
      then show ?thesis unfolding Some option.case by blast
    qed
  next
    case (Some e)
    with step Cons.prems(2) have out: "out = Some e" and s: "s = s1" by simp_all
    from c step Some have "vars s1 = vars s0 \<and> stdout s1 = stdout s0 \<and>
        (trace s1 = trace s0 \<or> (\<exists>cl. trace s1 = trace s0 @ [(cl, Inl e)]))"
      unfolding careful_def by fastforce
    with step Some s Cons.prems(3) have "c # cs = [] @ c # cs \<and> exec [] s0 = (None, s0) \<and>
        c s0 = (Some e, s) \<and> vars s = vars s0 \<and> stdout s = stdout s0 \<and>
        returned (trace s0) \<and>
        (trace s = trace s0 \<or> (\<exists>cl. trace s = trace s0 @ [(cl, Inl e)]))"
      by simp
    then show ?thesis unfolding out option.case by blast
  qed
qed


subsection \<open>A run of the script on the stand-in library\<close>

lemma demo_run: "run (demo_lib []) 0 = (None, snd (run (demo_lib []) 0))"
proof -
  have "fst (run (demo_lib []) 0) = None"
    by (simp add: run_def script_def cell_input_def cell_setup_def cell_explain_def
          cell_dashboard_def initial_def stmt_defs demo_lib_def ascii_def)
  then show ?thesis by (simp add: prod_eq_iff)
qed

subsection \<open>The claims about the adapters\<close>

text \<open>
  Claim C2.  For every sequence of strings \<open>L\<close>, preprocessing the text batch
  constructed from \<open>L\<close> gives \<open>L\<close> back: \<open>preprocess(Text(L)) = L\<close>.
\<close>

theorem preprocess_Text: "preprocess (Text L) = L"
  by (simp add: preprocess_def Text_def)

text \<open>
  Claim C3.  When the model output is a sequence of \<open>n\<close> sequences of \<open>k\<close> records
  each, every record having a \<open>"score"\<close> entry, \<open>postprocess\<close> returns (without
  raising) an array of \<open>n\<close> rows of \<open>k\<close> entries whose entry \<open>(i, j)\<close> is the
  \<open>"score"\<close> of record \<open>j\<close> of sequence \<open>i\<close>; in particular this is what
  \<open>postprocess(model(preprocess(x)))\<close> yields for a model callable with such outputs.
\<close>

theorem postprocess_scores:
  assumes "model (preprocess x) = (outputs :: 'v dict list list)"
    and "length outputs = n"
    and "\<forall>ss \<in> set outputs. length ss = k \<and> (\<forall>s \<in> set ss. s (ascii ''score'') \<noteq> None)"
  shows "\<exists>A. postprocess (model (preprocess x)) = Inr (Array A) \<and> length A = n \<and>
           (\<forall>i<n. length (A ! i) = k \<and>
              (\<forall>j<k. Some (A ! i ! j) = (outputs ! i ! j) (ascii ''score'')))"
proof -
  define sc where "sc = (\<lambda>s::'v dict. the (s (ascii ''score'')))"
  define A where "A = map (map sc) outputs"
  have rect: "length ss = k" and has: "s \<in> set ss \<Longrightarrow> s (ascii ''score'') \<noteq> None"
    if "ss \<in> set outputs" for ss s
    using assms(3) that by blast+
  have post: "postprocess outputs = Inr (Array A)"
    unfolding A_def sc_def by (rule postprocess_rect [where k = k]) (simp add: rect has)
  have lenA: "length A = n"
    by (simp add: A_def assms(2))
  have entries: "length (A ! i) = k \<and>
      (\<forall>j<k. Some (A ! i ! j) = (outputs ! i ! j) (ascii ''score''))" if "i < n" for i
  proof -
    from that assms(2) have mem: "outputs ! i \<in> set outputs" by simp
    have len: "length (outputs ! i) = k" by (rule rect [OF mem])
    have row: "A ! i = map sc (outputs ! i)"
      using that assms(2) by (simp add: A_def)
    have "Some (A ! i ! j) = (outputs ! i ! j) (ascii ''score'')" if "j < k" for j
    proof -
      from that len have "outputs ! i ! j \<in> set (outputs ! i)" by simp
      then have "(outputs ! i ! j) (ascii ''score'') \<noteq> None" by (rule has [OF mem])
      then obtain v where v: "(outputs ! i ! j) (ascii ''score'') = Some v" by blast
      have "A ! i ! j = sc (outputs ! i ! j)"
        using that len by (simp add: row)
      with v show ?thesis by (simp add: sc_def)
    qed
    with len row show ?thesis by simp
  qed
  have all: "postprocess outputs = Inr (Array A) \<and> length A = n \<and>
      (\<forall>i<n. length (A ! i) = k \<and>
         (\<forall>j<k. Some (A ! i ! j) = (outputs ! i ! j) (ascii ''score'')))"
    using post lenA entries by blast
  show ?thesis unfolding assms(1) by (rule exI [of _ A], rule all)
qed

theorem postprocess_scores_witness:
  "postprocess (demo_model (preprocess (Text [sentence1, sentence2])))
     = Inr (Array [[12, 7], [19, 7]]) \<and>
   (\<exists>A. postprocess (demo_model (preprocess (Text [sentence1, sentence2]))) = Inr (Array A) \<and>
      length A = 2 \<and>
      (\<forall>i<2. length (A ! i) = 2 \<and>
         (\<forall>j<2. Some (A ! i ! j)
            = (demo_model [sentence1, sentence2] ! i ! j) (ascii ''score''))))"
proof -
  have h1: "demo_model (preprocess (Text [sentence1, sentence2]))
              = demo_model [sentence1, sentence2]"
    by (simp add: preprocess_def Text_def)
  have h2: "length (demo_model [sentence1, sentence2]) = 2"
    by (simp add: demo_model_def)
  have h3: "\<forall>ss \<in> set (demo_model [sentence1, sentence2]).
              length ss = 2 \<and> (\<forall>s \<in> set ss. s (ascii ''score'') \<noteq> None)"
    by (simp add: demo_model_def demo_scores_def)
  have ev: "postprocess (demo_model (preprocess (Text [sentence1, sentence2])))
              = Inr (Array [[12, 7], [19, 7]])"
    by (simp add: postprocess_def demo_model_def demo_scores_def preprocess_def Text_def
          getitem_def np_array_def sentence1_def sentence2_def ascii_def)
  show ?thesis
    by (rule conjI [OF ev postprocess_scores
          [of demo_model "Text [sentence1, sentence2]" "demo_model [sentence1, sentence2]" 2 2,
           OF h1 h2 h3]])
qed

text \<open>
  Claim C10.  Both adapters are pure.  They leave their argument unchanged: after
  \<open>preprocess\<close> the store is the one before the call, and after \<open>postprocess\<close> every
  object of the store before the call is still there, unchanged, the call having
  only added new objects (the lists of the comprehension and the array).  And they
  are deterministic: the result, as a value, is a function of the value of the
  argument, and of no more of it than the adapter reads.  Two calls of \<open>preprocess\<close>
  on text batches with equal \<open>values\<close>, and two calls of \<open>postprocess\<close> on outputs
  whose records have equal \<open>"score"\<close> entries, give equal results (the same
  exception, or objects of equal value), in whatever stores and at whatever places
  the arguments lie.
\<close>

theorem adapters_pure:
  "snd (preprocess_store x h) = h \<and>
   (\<exists>new. snd (postprocess_store y h) = h @ new) \<and>
   (only_values (value_of (Suc d) h1 x1) = only_values (value_of (Suc d) h2 x2) \<longrightarrow>
      result_value d (preprocess_store x1 h1) = result_value d (preprocess_store x2 h2)) \<and>
   (closed h1 \<and> closed h2 \<and>
    only_scores (value_of 4 h1 y1) = only_scores (value_of 4 h2 y2) \<longrightarrow>
      result_value 1 (postprocess_store y1 h1) = result_value 1 (postprocess_store y2 h2))"
proof (intro conjI impI)
  show "snd (preprocess_store x h) = h" by (rule preprocess_frame)
next
  show "\<exists>new. snd (postprocess_store y h) = h @ new" by (rule postprocess_frame)
next
  assume "only_values (value_of (Suc d) h1 x1) = only_values (value_of (Suc d) h2 x2)"
  then have "values_of_value (only_values (value_of (Suc d) h1 x1))
               = values_of_value (only_values (value_of (Suc d) h2 x2))"
    by (rule arg_cong)
  then show "result_value d (preprocess_store x1 h1) = result_value d (preprocess_store x2 h2)"
    by (simp only: values_of_value_only preprocess_value)
next
  assume a: "closed h1 \<and> closed h2 \<and>
    only_scores (value_of 4 h1 y1) = only_scores (value_of 4 h2 y2)"
  have four: "(4::nat) = Suc (Suc (Suc (Suc 0)))" by simp
  from a have "array_of_value (only_scores (value_of 4 h1 y1))
                 = array_of_value (only_scores (value_of 4 h2 y2))"
    by simp
  then have "array_of_value (value_of (Suc (Suc (Suc (Suc 0)))) h1 y1)
               = array_of_value (value_of (Suc (Suc (Suc (Suc 0)))) h2 y2)"
    by (simp only: array_of_value_only four)
  with a show "result_value 1 (postprocess_store y1 h1) = result_value 1 (postprocess_store y2 h2)"
    by (simp only: postprocess_value One_nat_def)
qed

lemmas store_defs = preprocess_store_def postprocess_store_def attribute_def item_def
  list_comprehension_def alloc_def deref_def np_array_store_def nested_def numbers_def
  np_array_def result_value_def

theorem adapters_pure_witness:
  "snd (preprocess_store 8 heap_a) = heap_a \<and>
   (\<exists>new. snd (postprocess_store 6 heap_a) = heap_a @ new) \<and>
   result_value 2 (preprocess_store 8 heap_a) = result_value 2 (preprocess_store 6 heap_b) \<and>
   result_value 1 (postprocess_store 6 heap_a) = result_value 1 (postprocess_store 0 heap_b) \<and>
   result_value 1 (postprocess_store 6 heap_a) = Inr (VArray [[12, 7]]) \<and>
   fst (postprocess_store 6 heap_a) \<noteq> fst (postprocess_store 0 heap_b)"
proof -
  note T = adapters_pure [where x = 8 and h = heap_a and y = 6 and d = 2
      and ?h1.0 = heap_a and ?x1.0 = 8 and ?h2.0 = heap_b and ?x2.0 = 6
      and ?y1.0 = 6 and ?y2.0 = 0]
  have p: "only_values (value_of (Suc 2) heap_a 8) = only_values (value_of (Suc 2) heap_b 6)"
    by (simp add: heap_a_def heap_b_def deref_def eval_nat_numeral)
  have q: "closed heap_a \<and> closed heap_b \<and>
      only_scores (value_of 4 heap_a 6) = only_scores (value_of 4 heap_b 0)"
    by (simp add: heap_a_def heap_b_def deref_def closed_def eval_nat_numeral ascii_def)
  have ev: "result_value 1 (postprocess_store 6 heap_a) = Inr (VArray [[12, 7]])"
    by (simp add: store_defs heap_a_def ascii_def)
  have ne: "fst (postprocess_store 6 heap_a) \<noteq> fst (postprocess_store 0 heap_b)"
    by (simp add: store_defs heap_a_def heap_b_def ascii_def)
  from T have t1: "snd (preprocess_store 8 heap_a) = heap_a" by (rule conjunct1)
  from T have t2: "\<exists>new. snd (postprocess_store 6 heap_a) = heap_a @ new"
    by (rule conjunct2 [THEN conjunct1])
  from T have t3: "result_value 2 (preprocess_store 8 heap_a)
                     = result_value 2 (preprocess_store 6 heap_b)"
    by (rule conjunct2 [THEN conjunct2, THEN conjunct1, THEN mp, OF _ p])
  from T have t4: "result_value 1 (postprocess_store 6 heap_a)
                     = result_value 1 (postprocess_store 0 heap_b)"
    by (rule conjunct2 [THEN conjunct2, THEN conjunct2, THEN mp, OF _ q])
  from t1 t2 t3 t4 ev ne show ?thesis by (intro conjI)
qed

subsection \<open>The claim about the explainer facade\<close>

text \<open>
  Claim C1.  For the facade configured with the method names \<open>["shap", "lime"]\<close>,
  \<open>explain\<close> returns a mapping whose keys are \<open>"shap"\<close> and \<open>"lime"\<close>, each mapped
  to the explanation object of that method, an object with the rendering operation
  \<open>ipython_plot\<close>.
\<close>

theorem explain_mapping:
  "map fst (explain engines (NLPExplainer [ascii ''shap'', ascii ''lime''] md mo pre post) x)
     = [ascii ''shap'', ascii ''lime''] \<and>
   map_of (explain engines (NLPExplainer [ascii ''shap'', ascii ''lime''] md mo pre post) x)
       (ascii ''shap'')
     = Some (engines (ascii ''shap'')
         (NLPExplainer [ascii ''shap'', ascii ''lime''] md mo pre post) x) \<and>
   map_of (explain engines (NLPExplainer [ascii ''shap'', ascii ''lime''] md mo pre post) x)
       (ascii ''lime'')
     = Some (engines (ascii ''lime'')
         (NLPExplainer [ascii ''shap'', ascii ''lime''] md mo pre post) x)"
  by (simp add: explain_def NLPExplainer_def ascii_def)

subsection \<open>The claims about the script\<close>

text \<open>
  Claim C4, amended.  In a run in which nothing raises, the script makes eight calls
  into the library, in this order: \<open>Text\<close>, \<open>transformers.pipeline\<close>, \<open>NLPExplainer\<close>,
  \<open>explain\<close>, \<open>ipython_plot\<close> twice, \<open>Dashboard\<close>, \<open>show\<close>.  The five steps of the
  flow are among them in their order, each once and none skipped; the two renderings
  lie between \<open>explain\<close> and \<open>Dashboard\<close>, and \<open>show\<close> follows \<open>Dashboard\<close>.
\<close>

theorem script_flow:
  assumes "run lib w = (None, s)"
  shows "calls_made s =
      [''Text'', ''transformers.pipeline'', ''NLPExplainer'', ''explain'',
       ''ipython_plot'', ''ipython_plot'', ''Dashboard'', ''show''] \<and>
    filter (\<lambda>name. name \<in> set flow_steps) (calls_made s) = flow_steps"
proof -
  from run_None [OF assms] obtain xv mv ev kvs so sl dv r1 r2 r3 where "trace s =
      [(Call (Global ''Text'') [List [Str sentence1, Str sentence2]] [], Inr xv),
       (Call (Global ''transformers.pipeline'') [Str (ascii ''sentiment-analysis'')]
          [(''model'', Str (ascii ''distilbert-base-uncased-finetuned-sst-2-english'')),
           (''return_all_scores'', Bool True)], Inr mv),
       (Call (Global ''NLPExplainer'') []
          [(''explainers'', List [Str (ascii ''shap''), Str (ascii ''lime'')]),
           (''mode'', Str (ascii ''classification'')),
           (''model'', mv),
           (''preprocess'', Fun Lambda_preprocess),
           (''postprocess'', Fun Lambda_postprocess)], Inr (Obj ev)),
       (Call (Method ev ''explain'') [xv] [], Inr (Dict kvs)),
       (Call (Method so ''ipython_plot'') [] [], Inr r1),
       (Call (Method sl ''ipython_plot'') [] [], Inr r2),
       (Call (Global ''Dashboard'') []
          [(''instances'', xv), (''local_explanations'', Dict kvs)], Inr (Obj dv)),
       (Call (Method dv ''show'') [] [], Inr r3)]"
    by blast
  then have names: "calls_made s =
      [''Text'', ''transformers.pipeline'', ''NLPExplainer'', ''explain'',
       ''ipython_plot'', ''ipython_plot'', ''Dashboard'', ''show'']"
    by (simp add: calls_made_def)
  have "filter (\<lambda>name. name \<in> set flow_steps) (calls_made s) = flow_steps"
    unfolding names by (simp add: flow_steps_def)
  with names show ?thesis by (rule conjI)
qed

theorem script_flow_witness:
  "run (demo_lib []) 0 = (None, snd (run (demo_lib []) 0)) \<and>
   calls_made (snd (run (demo_lib []) 0)) =
      [''Text'', ''transformers.pipeline'', ''NLPExplainer'', ''explain'',
       ''ipython_plot'', ''ipython_plot'', ''Dashboard'', ''show''] \<and>
   filter (\<lambda>name. name \<in> set flow_steps) (calls_made (snd (run (demo_lib []) 0))) = flow_steps"
  by (rule conjI [OF demo_run script_flow [OF demo_run]])

text \<open>
  The five steps are not all the script does: on the stand-in library the run makes
  eight calls, and the two renderings between \<open>explain\<close> and \<open>Dashboard\<close> are none of
  the five steps.
\<close>

theorem five_steps_counterexample:
  "fst (run (demo_lib []) 0) = None \<and>
   calls_made (snd (run (demo_lib []) 0)) =
      [''Text'', ''transformers.pipeline'', ''NLPExplainer'', ''explain'',
       ''ipython_plot'', ''ipython_plot'', ''Dashboard'', ''show''] \<and>
   ''ipython_plot'' \<notin> set flow_steps \<and>
   calls_made (snd (run (demo_lib []) 0)) \<noteq> flow_steps"
  by (simp add: run_def script_def cell_input_def cell_setup_def cell_explain_def
        cell_dashboard_def initial_def stmt_defs demo_lib_def ascii_def calls_made_def
        flow_steps_def)

text \<open>
  Claim C5.  In a run in which nothing raises, the script calls \<open>NLPExplainer\<close> once,
  with no positional argument and exactly five keyword arguments: \<open>explainers\<close> is
  \<open>["shap", "lime"]\<close>, \<open>mode\<close> is \<open>"classification"\<close>, \<open>model\<close> is the value that
  \<open>transformers.pipeline\<close> returned, \<open>preprocess\<close> and \<open>postprocess\<close> are the two
  adapters.
\<close>

theorem NLPExplainer_arguments:
  assumes "run lib w = (None, s)"
  shows "\<exists>c mv r.
    trace s ! 1 = (c, Inr mv) \<and> callee c = Global ''transformers.pipeline'' \<and>
    filter (\<lambda>ev. callee (fst ev) = Global ''NLPExplainer'') (trace s) =
      [(Call (Global ''NLPExplainer'') []
          [(''explainers'', List [Str (ascii ''shap''), Str (ascii ''lime'')]),
           (''mode'', Str (ascii ''classification'')),
           (''model'', mv),
           (''preprocess'', Fun Lambda_preprocess),
           (''postprocess'', Fun Lambda_postprocess)], r)]"
proof -
  from run_None [OF assms] obtain xv mv ev kvs so sl dv r1 r2 r3 where tr: "trace s =
      [(Call (Global ''Text'') [List [Str sentence1, Str sentence2]] [], Inr xv),
       (Call (Global ''transformers.pipeline'') [Str (ascii ''sentiment-analysis'')]
          [(''model'', Str (ascii ''distilbert-base-uncased-finetuned-sst-2-english'')),
           (''return_all_scores'', Bool True)], Inr mv),
       (Call (Global ''NLPExplainer'') []
          [(''explainers'', List [Str (ascii ''shap''), Str (ascii ''lime'')]),
           (''mode'', Str (ascii ''classification'')),
           (''model'', mv),
           (''preprocess'', Fun Lambda_preprocess),
           (''postprocess'', Fun Lambda_postprocess)], Inr (Obj ev)),
       (Call (Method ev ''explain'') [xv] [], Inr (Dict kvs)),
       (Call (Method so ''ipython_plot'') [] [], Inr r1),
       (Call (Method sl ''ipython_plot'') [] [], Inr r2),
       (Call (Global ''Dashboard'') []
          [(''instances'', xv), (''local_explanations'', Dict kvs)], Inr (Obj dv)),
       (Call (Method dv ''show'') [] [], Inr r3)]"
    by blast
  show ?thesis
    apply (rule exI [of _ "Call (Global ''transformers.pipeline'') [Str (ascii ''sentiment-analysis'')]
          [(''model'', Str (ascii ''distilbert-base-uncased-finetuned-sst-2-english'')),
           (''return_all_scores'', Bool True)]"])
    apply (rule exI [of _ mv], rule exI [of _ "Inr (Obj ev)"])
    apply (simp add: tr)
    done
qed

theorem NLPExplainer_arguments_witness:
  "run (demo_lib []) 0 = (None, snd (run (demo_lib []) 0)) \<and>
   (\<exists>c mv r.
    trace (snd (run (demo_lib []) 0)) ! 1 = (c, Inr mv) \<and>
    callee c = Global ''transformers.pipeline'' \<and>
    filter (\<lambda>ev. callee (fst ev) = Global ''NLPExplainer'') (trace (snd (run (demo_lib []) 0))) =
      [(Call (Global ''NLPExplainer'') []
          [(''explainers'', List [Str (ascii ''shap''), Str (ascii ''lime'')]),
           (''mode'', Str (ascii ''classification'')),
           (''model'', mv),
           (''preprocess'', Fun Lambda_preprocess),
           (''postprocess'', Fun Lambda_postprocess)], r)])"
  by (rule conjI [OF demo_run NLPExplainer_arguments [OF demo_run]])

text \<open>
  Claim C6.  In a run in which nothing raises, \<open>explain\<close> returns a mapping, and right
  after that call the script calls \<open>ipython_plot\<close> on the object the mapping holds
  under \<open>"shap"\<close> and then on the object it holds under \<open>"lime"\<close>; these are the only
  calls of \<open>ipython_plot\<close>, so each of the two is rendered exactly once.
\<close>

theorem renders_each_explanation:
  assumes "run lib w = (None, s)"
  shows "\<exists>pre post ev xv kvs so sl r1 r2.
    trace s = pre @
      [(Call (Method ev ''explain'') [xv] [], Inr (Dict kvs)),
       (Call (Method so ''ipython_plot'') [] [], Inr r1),
       (Call (Method sl ''ipython_plot'') [] [], Inr r2)] @ post \<and>
    map_of kvs (ascii ''shap'') = Some (Obj so) \<and>
    map_of kvs (ascii ''lime'') = Some (Obj sl) \<and>
    ''ipython_plot'' \<notin> set (map (\<lambda>ev. callee_name (callee (fst ev))) (pre @ post))"
proof -
  from run_None [OF assms] obtain xv mv ev kvs so sl dv r1 r2 r3 where tr: "trace s =
      [(Call (Global ''Text'') [List [Str sentence1, Str sentence2]] [], Inr xv),
       (Call (Global ''transformers.pipeline'') [Str (ascii ''sentiment-analysis'')]
          [(''model'', Str (ascii ''distilbert-base-uncased-finetuned-sst-2-english'')),
           (''return_all_scores'', Bool True)], Inr mv),
       (Call (Global ''NLPExplainer'') []
          [(''explainers'', List [Str (ascii ''shap''), Str (ascii ''lime'')]),
           (''mode'', Str (ascii ''classification'')),
           (''model'', mv),
           (''preprocess'', Fun Lambda_preprocess),
           (''postprocess'', Fun Lambda_postprocess)], Inr (Obj ev)),
       (Call (Method ev ''explain'') [xv] [], Inr (Dict kvs)),
       (Call (Method so ''ipython_plot'') [] [], Inr r1),
       (Call (Method sl ''ipython_plot'') [] [], Inr r2),
       (Call (Global ''Dashboard'') []
          [(''instances'', xv), (''local_explanations'', Dict kvs)], Inr (Obj dv)),
       (Call (Method dv ''show'') [] [], Inr r3)]"
    and so: "map_of kvs (ascii ''shap'') = Some (Obj so)"
    and sl: "map_of kvs (ascii ''lime'') = Some (Obj sl)"
    by blast
  show ?thesis
    apply (rule exI [of _ "[(Call (Global ''Text'') [List [Str sentence1, Str sentence2]] [], Inr xv),
       (Call (Global ''transformers.pipeline'') [Str (ascii ''sentiment-analysis'')]
          [(''model'', Str (ascii ''distilbert-base-uncased-finetuned-sst-2-english'')),
           (''return_all_scores'', Bool True)], Inr mv),
       (Call (Global ''NLPExplainer'') []
          [(''explainers'', List [Str (ascii ''shap''), Str (ascii ''lime'')]),
           (''mode'', Str (ascii ''classification'')),
           (''model'', mv),
           (''preprocess'', Fun Lambda_preprocess),
           (''postprocess'', Fun Lambda_postprocess)], Inr (Obj ev))]"])
    apply (rule exI [of _ "[(Call (Global ''Dashboard'') []
          [(''instances'', xv), (''local_explanations'', Dict kvs)], Inr (Obj dv)),
       (Call (Method dv ''show'') [] [], Inr r3)]"])
    apply (rule exI [of _ ev], rule exI [of _ xv], rule exI [of _ kvs])
    apply (rule exI [of _ so], rule exI [of _ sl], rule exI [of _ r1], rule exI [of _ r2])
    apply (simp add: tr so sl)
    done
qed

theorem renders_each_explanation_witness:
  "run (demo_lib []) 0 = (None, snd (run (demo_lib []) 0)) \<and>
   (\<exists>pre post ev xv kvs so sl r1 r2.
    trace (snd (run (demo_lib []) 0)) = pre @
      [(Call (Method ev ''explain'') [xv] [], Inr (Dict kvs)),
       (Call (Method so ''ipython_plot'') [] [], Inr r1),
       (Call (Method sl ''ipython_plot'') [] [], Inr r2)] @ post \<and>
    map_of kvs (ascii ''shap'') = Some (Obj so) \<and>
    map_of kvs (ascii ''lime'') = Some (Obj sl) \<and>
    ''ipython_plot'' \<notin> set (map (\<lambda>ev. callee_name (callee (fst ev))) (pre @ post)))"
  by (rule conjI [OF demo_run renders_each_explanation [OF demo_run]])

text \<open>
  Claim C7.  In a run in which nothing raises, the last two calls are \<open>Dashboard\<close>,
  with exactly the keyword arguments \<open>instances\<close>, the value \<open>Text\<close> returned, and
  \<open>local_explanations\<close>, the mapping \<open>explain\<close> returned, and then \<open>show\<close> on the
  object \<open>Dashboard\<close> returned; neither is called before.
\<close>

theorem dashboard_call:
  assumes "run lib w = (None, s)"
  shows "\<exists>xv ev kvs dv r.
    trace s ! 0 = (Call (Global ''Text'') [List [Str sentence1, Str sentence2]] [], Inr xv) \<and>
    trace s ! 3 = (Call (Method ev ''explain'') [xv] [], Inr (Dict kvs)) \<and>
    drop 6 (trace s) =
      [(Call (Global ''Dashboard'') []
          [(''instances'', xv), (''local_explanations'', Dict kvs)], Inr (Obj dv)),
       (Call (Method dv ''show'') [] [], Inr r)] \<and>
    ''Dashboard'' \<notin> set (take 6 (calls_made s)) \<and>
    ''show'' \<notin> set (take 6 (calls_made s))"
proof -
  from run_None [OF assms] obtain xv mv ev kvs so sl dv r1 r2 r3 where tr: "trace s =
      [(Call (Global ''Text'') [List [Str sentence1, Str sentence2]] [], Inr xv),
       (Call (Global ''transformers.pipeline'') [Str (ascii ''sentiment-analysis'')]
          [(''model'', Str (ascii ''distilbert-base-uncased-finetuned-sst-2-english'')),
           (''return_all_scores'', Bool True)], Inr mv),
       (Call (Global ''NLPExplainer'') []
          [(''explainers'', List [Str (ascii ''shap''), Str (ascii ''lime'')]),
           (''mode'', Str (ascii ''classification'')),
           (''model'', mv),
           (''preprocess'', Fun Lambda_preprocess),
           (''postprocess'', Fun Lambda_postprocess)], Inr (Obj ev)),
       (Call (Method ev ''explain'') [xv] [], Inr (Dict kvs)),
       (Call (Method so ''ipython_plot'') [] [], Inr r1),
       (Call (Method sl ''ipython_plot'') [] [], Inr r2),
       (Call (Global ''Dashboard'') []
          [(''instances'', xv), (''local_explanations'', Dict kvs)], Inr (Obj dv)),
       (Call (Method dv ''show'') [] [], Inr r3)]"
    by blast
  show ?thesis
    apply (rule exI [of _ xv], rule exI [of _ ev], rule exI [of _ kvs])
    apply (rule exI [of _ dv], rule exI [of _ r3])
    apply (simp add: tr calls_made_def)
    done
qed

theorem dashboard_call_witness:
  "run (demo_lib []) 0 = (None, snd (run (demo_lib []) 0)) \<and>
   (\<exists>xv ev kvs dv r.
    trace (snd (run (demo_lib []) 0)) ! 0
      = (Call (Global ''Text'') [List [Str sentence1, Str sentence2]] [], Inr xv) \<and>
    trace (snd (run (demo_lib []) 0)) ! 3
      = (Call (Method ev ''explain'') [xv] [], Inr (Dict kvs)) \<and>
    drop 6 (trace (snd (run (demo_lib []) 0))) =
      [(Call (Global ''Dashboard'') []
          [(''instances'', xv), (''local_explanations'', Dict kvs)], Inr (Obj dv)),
       (Call (Method dv ''show'') [] [], Inr r)] \<and>
    ''Dashboard'' \<notin> set (take 6 (calls_made (snd (run (demo_lib []) 0)))) \<and>
    ''show'' \<notin> set (take 6 (calls_made (snd (run (demo_lib []) 0)))))"
  by (rule conjI [OF demo_run dashboard_call [OF demo_run]])

text \<open>
  Claim C9.  The script handles no exception itself.  Whenever a library call of a run
  raises \<open>e\<close>: the run ends with \<open>e\<close>; that call is the last call of the run; the
  statements after the one that made the call are not executed (the final state is
  the state in which that statement ended); and the variables bound and the lines
  printed are those from before that statement.
\<close>

theorem errors_propagate:
  assumes "run lib w = (out, s)"
    and "i < length (trace s)"
    and "snd (trace s ! i) = Inl e"
  shows "out = Some e \<and> Suc i = length (trace s) \<and>
    (\<exists>pre c post s1. script lib = pre @ c # post \<and> exec pre (initial w) = (None, s1) \<and>
       c s1 = (Some e, s) \<and> vars s = vars s1 \<and> stdout s = stdout s1)"
proof -
  have ex: "exec (script lib) (initial w) = (out, s)" using assms(1) by (simp add: run_def)
  have r0: "returned (trace (initial w :: ('a, 'b) state))" by (simp add: returned_def initial_def)
  have cs: "\<And>c. c \<in> set (script lib) \<Longrightarrow> careful c" by (rule careful_script)
  note main = exec_careful [OF cs ex r0]
  from assms(2,3) have bad: "\<not> returned (trace s)"
    unfolding returned_def by (metis nth_mem sum.distinct(1))
  show ?thesis
  proof (cases out)
    case None
    with main bad show ?thesis by simp
  next
    case (Some e')
    with main obtain pre c post s1 where sc: "script lib = pre @ c # post"
      and pre: "exec pre (initial w) = (None, s1)" and c: "c s1 = (Some e', s)"
      and v: "vars s = vars s1" and o: "stdout s = stdout s1" and r1: "returned (trace s1)"
      and t: "trace s = trace s1 \<or> (\<exists>cl. trace s = trace s1 @ [(cl, Inl e')])"
      by auto
    from t bad r1 obtain cl where t': "trace s = trace s1 @ [(cl, Inl e')]" by auto
    have "i = length (trace s1)"
    proof (rule ccontr)
      assume "i \<noteq> length (trace s1)"
      with assms(2) t' have "i < length (trace s1)" by simp
      with t' have "trace s ! i = trace s1 ! i" and "trace s1 ! i \<in> set (trace s1)"
        by (simp_all add: nth_append)
      with r1 assms(3) show False unfolding returned_def by (metis sum.distinct(1))
    qed
    with t' assms(3) have "e' = e" and "Suc i = length (trace s)" by simp_all
    with Some sc pre c v o show ?thesis by blast
  qed
qed

theorem errors_propagate_witness:
  "fst (run (demo_lib [''explain'']) 0) = Some (Raised ''explain'') \<and>
   Suc 3 = length (trace (snd (run (demo_lib [''explain'']) 0))) \<and>
   (\<exists>pre c post s1.
      script (demo_lib [''explain'']) = pre @ c # post \<and>
      exec pre (initial 0) = (None, s1) \<and>
      c s1 = (Some (Raised ''explain''), snd (run (demo_lib [''explain'']) 0)) \<and>
      vars (snd (run (demo_lib [''explain'']) 0)) = vars s1 \<and>
      stdout (snd (run (demo_lib [''explain'']) 0)) = stdout s1)"
proof -
  have r: "run (demo_lib [''explain'']) 0
             = (fst (run (demo_lib [''explain'']) 0), snd (run (demo_lib [''explain'']) 0))"
    by simp
  have h2: "3 < length (trace (snd (run (demo_lib [''explain'']) 0)))"
    by (simp add: run_def script_def cell_input_def cell_setup_def cell_explain_def
          cell_dashboard_def initial_def stmt_defs demo_lib_def ascii_def)
  have h3: "snd (trace (snd (run (demo_lib [''explain'']) 0)) ! 3) = Inl (Raised ''explain'')"
    by (simp add: run_def script_def cell_input_def cell_setup_def cell_explain_def
          cell_dashboard_def initial_def stmt_defs demo_lib_def ascii_def)
  show ?thesis by (rule errors_propagate [OF r h2 h3])
qed

end
